theory Spec2Isabelle
  imports Main
begin

section \<open>Python strings\<close>

text \<open>
  A Python \<open>str\<close> is modelled as a \<open>string\<close>, one \<open>char\<close> per character of the
  Python string, so \<open>length\<close> is Python's \<open>len\<close>. A \<open>char\<close> holds a code point
  below 256, and \<open>str.strip\<close> is modelled on all of them. The builtin \<open>int\<close> depends on
  the interpreter (the digits of other scripts, the limit on the number of digits of
  later versions), so the functions that call it take it as the parameter \<open>to_int\<close>,
  which gives \<open>None\<close> where \<open>int\<close> raises \<open>ValueError\<close>.
\<close>

definition is_space :: "char \<Rightarrow> bool" where
  \<comment> \<open>\<open>str.isspace\<close> below code point 256: tab, LF, VT, FF, CR, FS, GS, RS, US, the
      space, NEL (U+0085) and the no-break space (U+00A0).\<close>
  "is_space c = (c \<in> set [CHR 0x09, CHR 0x0A, CHR 0x0B, CHR 0x0C, CHR 0x0D,
                            CHR 0x1C, CHR 0x1D, CHR 0x1E, CHR 0x1F, CHR 0x20,
                            CHR 0x85, CHR 0xA0])"

definition py_strip :: "string \<Rightarrow> string" where
  \<comment> \<open>\<open>s.strip()\<close>: leading and trailing whitespace removed.\<close>
  "py_strip s = rev (dropWhile is_space (rev (dropWhile is_space s)))"

fun py_split :: "char \<Rightarrow> string \<Rightarrow> string list" where
  \<comment> \<open>\<open>s.split(sep)\<close> for a one-character separator: every occurrence splits,
      and the empty string gives one empty field.\<close>
  "py_split sep [] = ['''']"
| "py_split sep (c # cs) =
     (if c = sep then [] # py_split sep cs
      else (case py_split sep cs of
              [] \<Rightarrow> [c # []]
            | p # ps \<Rightarrow> (c # p) # ps))"

fun py_split_max :: "char \<Rightarrow> nat \<Rightarrow> string \<Rightarrow> string list" where
  \<comment> \<open>\<open>s.split(sep, maxsplit=n)\<close>: at most \<open>n\<close> splits, from the left.\<close>
  "py_split_max sep 0 s = [s]"
| "py_split_max sep (Suc n) s =
     (if sep \<in> set s
      then takeWhile (\<lambda>c. c \<noteq> sep) s
             # py_split_max sep n (tl (dropWhile (\<lambda>c. c \<noteq> sep) s))
      else [s])"

fun py_join :: "string \<Rightarrow> string list \<Rightarrow> string" where
  \<comment> \<open>\<open>sep.join(ws)\<close>\<close>
  "py_join sep [] = []"
| "py_join sep [w] = w"
| "py_join sep (w # v # ws) = w @ sep @ py_join sep (v # ws)"

definition upper_char :: "char \<Rightarrow> char" where
  "upper_char c =
     (let n = (of_char c :: nat) in if 97 \<le> n \<and> n \<le> 122 then char_of (n - 32) else c)"

definition py_upper :: "string \<Rightarrow> string" where
  \<comment> \<open>\<open>s.upper()\<close> on the ASCII range: only the letters a to z change.\<close>
  "py_upper s = map upper_char s"

definition py_slice :: "'a list \<Rightarrow> int \<Rightarrow> int \<Rightarrow> 'a list" where
  \<comment> \<open>\<open>s[i:j]\<close>: a negative index counts from the end, and both are clamped to
      the length.\<close>
  "py_slice s i j =
     (let n = int (length s);
          norm = (\<lambda>k. if k < 0 then max 0 (n + k) else min n k);
          a = nat (norm i); b = nat (norm j)
      in drop a (take b s))"

definition is_digit :: "char \<Rightarrow> bool" where
  "is_digit c = (let n = (of_char c :: nat) in 48 \<le> n \<and> n \<le> 57)"

definition digit_value :: "char \<Rightarrow> nat" where
  "digit_value c = of_char c - 48"

fun parse_digits :: "bool \<Rightarrow> nat \<Rightarrow> string \<Rightarrow> nat option" where
  \<comment> \<open>Decimal digits, a single underscore allowed between two digits; the flag
      says that the character before was a digit.\<close>
  "parse_digits after_digit acc [] = (if after_digit then Some acc else None)"
| "parse_digits after_digit acc (c # cs) =
     (if is_digit c then parse_digits True (10 * acc + digit_value c) cs
      else if c = CHR ''_'' \<and> after_digit then parse_digits False acc cs
      else None)"

definition is_int_space :: "char \<Rightarrow> bool" where
  \<comment> \<open>The whitespace that \<open>int\<close> skips around a number: of the ASCII characters only
      tab, LF, VT, FF, CR and the space; beyond them NEL and the no-break space.\<close>
  "is_int_space c = (c \<in> set [CHR 0x09, CHR 0x0A, CHR 0x0B, CHR 0x0C, CHR 0x0D, CHR 0x20,
                                CHR 0x85, CHR 0xA0])"

definition py_int :: "string \<Rightarrow> int option" where
  \<comment> \<open>The \<open>to_int\<close> of the examples: \<open>int(s)\<close> of an interpreter with no limit on the
      number of digits, on code points below 256: surrounding whitespace, an optional
      sign, decimal digits.\<close>
  "py_int s =
     (case rev (dropWhile is_int_space (rev (dropWhile is_int_space s))) of
        [] \<Rightarrow> None
      | c # cs \<Rightarrow>
          if c = CHR ''-'' then map_option (\<lambda>n. - int n) (parse_digits False 0 cs)
          else if c = CHR ''+'' then map_option int (parse_digits False 0 cs)
          else map_option int (parse_digits False 0 (c # cs)))"

section \<open>Errors and files\<close>

datatype error = FileNotFoundError | IndexError | ValueError | KeyError

text \<open>
  A text file is the list of its lines, line terminators left out: every line that the
  code reads is passed through \<open>strip()\<close> before anything else, which removes the
  terminator. A path that names no file is \<open>None\<close>, and \<open>open\<close> raises
  \<open>FileNotFoundError\<close> there.
\<close>

type_synonym filesystem = "string \<rightharpoonup> string list"

section \<open>The PubTator Record Parser\<close>

text \<open>
  The two named tuples. The fields \<open>end\<close> and \<open>text\<close> are written \<open>end'\<close> and
  \<open>text'\<close>, the plain names being keywords of Isabelle.
\<close>

record MedMentionEntity =
  start :: int
  end' :: int
  mention_text :: string
  mention_type :: string
  umls_id :: string

record MedMentionExample =
  title :: string
  abstract :: string
  text' :: string
  pubmed_id :: string
  entities :: "MedMentionEntity list"

definition strip_fields :: "string \<Rightarrow> error + (string \<times> string \<times> string)" where
  \<comment> \<open>\<open>a, b, c = [x.strip() for x in line.split("|", maxsplit=2)]\<close>: unpacking
      anything but three values raises \<open>ValueError\<close>.\<close>
  "strip_fields line =
     (let fields = map py_strip (py_split_max CHR ''|'' 2 line)
      in if length fields \<noteq> 3 then Inl ValueError
         else Inr (fields ! 0, fields ! 1, fields ! 2))"

definition entity_of_line ::
  "(string \<Rightarrow> int option) \<Rightarrow> string \<Rightarrow> error + MedMentionEntity" where
  \<comment> \<open>The body of the loop over \<open>lines[2:]\<close>: six tab-separated fields, the first
      comma-separated part of the type, \<open>int\<close> of the two offsets.\<close>
  "entity_of_line to_int entity_line =
     (let fields = py_split CHR 0x09 entity_line
      in if length fields \<noteq> 6 then Inl ValueError
         else (case py_split CHR '','' (fields ! 4) of
                 [] \<Rightarrow> Inl IndexError
               | first_type # _ \<Rightarrow>
                   (case to_int (fields ! 1) of
                      None \<Rightarrow> Inl ValueError
                    | Some start_offset \<Rightarrow>
                        (case to_int (fields ! 2) of
                           None \<Rightarrow> Inl ValueError
                         | Some end_offset \<Rightarrow>
                             Inr \<lparr>start = start_offset, end' = end_offset,
                                  mention_text = fields ! 3,
                                  mention_type = first_type, umls_id = fields ! 5\<rparr>))))"

fun entities_of_lines ::
  "(string \<Rightarrow> int option) \<Rightarrow> string list \<Rightarrow> error + MedMentionEntity list" where
  "entities_of_lines to_int [] = Inr []"
| "entities_of_lines to_int (entity_line # rest) =
     (case entity_of_line to_int entity_line of
        Inl e \<Rightarrow> Inl e
      | Inr x \<Rightarrow> (case entities_of_lines to_int rest of
                    Inl e \<Rightarrow> Inl e
                  | Inr xs \<Rightarrow> Inr (x # xs)))"

definition process_example ::
  "(string \<Rightarrow> int option) \<Rightarrow> string list \<Rightarrow> error + MedMentionExample" where
  \<comment> \<open>\<open>lines[0]\<close> and \<open>lines[1]\<close> raise \<open>IndexError\<close> on a list that is too
      short.\<close>
  "process_example to_int lines =
     (case lines of
        [] \<Rightarrow> Inl IndexError
      | line0 # after0 \<Rightarrow>
          (case strip_fields line0 of
             Inl e \<Rightarrow> Inl e
           | Inr (pmid, _, title_text) \<Rightarrow>
               (case after0 of
                  [] \<Rightarrow> Inl IndexError
                | line1 # entity_lines \<Rightarrow>
                    (case strip_fields line1 of
                       Inl e \<Rightarrow> Inl e
                     | Inr (_, _, abstract_text) \<Rightarrow>
                         (case entities_of_lines to_int entity_lines of
                            Inl e \<Rightarrow> Inl e
                          | Inr parsed_entities \<Rightarrow>
                              Inr \<lparr>title = title_text, abstract = abstract_text,
                                   text' = title_text @ '' '' @ abstract_text,
                                   pubmed_id = pmid, entities = parsed_entities\<rparr>)))))"

section \<open>The PubTator Stream Iterator\<close>

text \<open>
  A generator is modelled by what a consumer that reads it to the end receives: the
  examples it yields, in order, and the exception that ends it, if one does.
  \<open>example_blocks to_int lines rest\<close> is the loop over the file from a point where the buffer
  holds \<open>lines\<close> and the lines \<open>rest\<close> are still to be read.
\<close>

fun example_blocks ::
  "(string \<Rightarrow> int option) \<Rightarrow> string list \<Rightarrow> string list \<Rightarrow> MedMentionExample list \<times> error option" where
  "example_blocks to_int lines [] =
     (if lines \<noteq> []
      then (case process_example to_int lines of
              Inl e \<Rightarrow> ([], Some e)
            | Inr example \<Rightarrow> ([example], None))
      else ([], None))"
| "example_blocks to_int lines (raw_line # rest) =
     (let line = py_strip raw_line
      in if line \<noteq> [] then example_blocks to_int (lines @ [line]) rest
         else (case process_example to_int lines of
                 Inl e \<Rightarrow> ([], Some e)
               | Inr example \<Rightarrow>
                   (case example_blocks to_int [] rest of
                      (examples, err) \<Rightarrow> (example # examples, err))))"

definition med_mentions_example_iterator ::
  "(string \<Rightarrow> int option) \<Rightarrow> filesystem \<Rightarrow> string \<Rightarrow> MedMentionExample list \<times> error option" where
  "med_mentions_example_iterator to_int fs filename =
     (case fs filename of
        None \<Rightarrow> ([], Some FileNotFoundError)
      | Some med_mentions_file \<Rightarrow> example_blocks to_int [] med_mentions_file)"

section \<open>The Corpus Splitter\<close>

definition path_join :: "string \<Rightarrow> string \<Rightarrow> string" where
  \<comment> \<open>\<open>os.path.join(directory, name)\<close> for a relative \<open>name\<close>\<close>
  "path_join directory name =
     (if directory = [] \<or> last directory = CHR ''/'' then directory @ name
      else directory @ ''/'' @ name)"

definition expected_names :: "string list" where
  "expected_names =
     [''corpus_pubtator.txt'',
      ''corpus_pubtator_pmids_all.txt'',
      ''corpus_pubtator_pmids_dev.txt'',
      ''corpus_pubtator_pmids_test.txt'',
      ''corpus_pubtator_pmids_trng.txt'']"

definition read_ids :: "filesystem \<Rightarrow> string \<Rightarrow> error + string set" where
  \<comment> \<open>\<open>{x.strip() for x in open(path)}\<close>\<close>
  "read_ids fs path =
     (case fs path of
        None \<Rightarrow> Inl FileNotFoundError
      | Some id_lines \<Rightarrow> Inr (set (map py_strip id_lines)))"

definition label_function ::
  "(string \<rightharpoonup> string) option \<Rightarrow> bool \<Rightarrow> string \<Rightarrow> error + string" where
  \<comment> \<open>The closure \<open>label_function\<close>, its two captured variables first.\<close>
  "label_function label_mapping span_only label =
     (if span_only then Inr ''ENTITY''
      else (case label_mapping of
              None \<Rightarrow> Inr label
            | Some mapping \<Rightarrow>
                (case mapping label of
                   None \<Rightarrow> Inl KeyError
                 | Some mapped \<Rightarrow> Inr mapped)))"

fun spacy_format_entities ::
  "(string \<rightharpoonup> string) option \<Rightarrow> bool \<Rightarrow> MedMentionEntity list
     \<Rightarrow> error + (int \<times> int \<times> string) list" where
  \<comment> \<open>\<open>[(x.start, x.end, label_function(x.mention_type)) for x in example.entities]\<close>\<close>
  "spacy_format_entities label_mapping span_only [] = Inr []"
| "spacy_format_entities label_mapping span_only (x # xs) =
     (case label_function label_mapping span_only (mention_type x) of
        Inl e \<Rightarrow> Inl e
      | Inr label \<Rightarrow>
          (case spacy_format_entities label_mapping span_only xs of
             Inl e \<Rightarrow> Inl e
           | Inr rest \<Rightarrow> Inr ((start x, end' x, label) # rest)))"

type_synonym SpacyNerExample = "string \<times> (int \<times> int \<times> string) list"
  \<comment> \<open>\<open>(text, {"entities": [...]})\<close>: the dictionary has the one key.\<close>

datatype split_item = SpacyExample SpacyNerExample | Document MedMentionExample
  \<comment> \<open>\<open>spacy_example if spacy_format else example\<close>\<close>

record split_lists =
  train_examples :: "split_item list"
  dev_examples :: "split_item list"
  test_examples :: "split_item list"

fun route_examples ::
  "(string \<rightharpoonup> string) option \<Rightarrow> bool \<Rightarrow> bool \<Rightarrow> string set \<Rightarrow> string set \<Rightarrow> string set
     \<Rightarrow> split_lists \<Rightarrow> MedMentionExample list \<Rightarrow> error + split_lists" where
  \<comment> \<open>The loop \<open>for example in examples\<close> over the examples the iterator yields.\<close>
  "route_examples label_mapping span_only spacy_format train_ids dev_ids test_ids acc [] = Inr acc"
| "route_examples label_mapping span_only spacy_format train_ids dev_ids test_ids acc (example # rest) =
     (case spacy_format_entities label_mapping span_only (entities example) of
        Inl e \<Rightarrow> Inl e
      | Inr labelled \<Rightarrow>
          (let spacy_example = (text' example, labelled);
               item = (if spacy_format then SpacyExample spacy_example else Document example);
               acc' = (if pubmed_id example \<in> train_ids
                       then acc\<lparr>train_examples := train_examples acc @ [item]\<rparr>
                       else if pubmed_id example \<in> dev_ids
                       then acc\<lparr>dev_examples := dev_examples acc @ [item]\<rparr>
                       else if pubmed_id example \<in> test_ids
                       then acc\<lparr>test_examples := test_examples acc @ [item]\<rparr>
                       else acc)
           in route_examples label_mapping span_only spacy_format train_ids dev_ids test_ids acc' rest))"

text \<open>
  \<open>resolve\<close> stands for the first part of the function, which is not modelled: the
  Path Resolver \<open>cached_path\<close> and, for a \<open>tar.gz\<close> path, the extraction into a
  temporary directory. It gives \<open>resolved_directory_path\<close> or fails, and \<open>fs\<close> is the
  file system as the rest of the function finds it. The iterator is created before the
  ID files are read, and opens the corpus only when the loop asks for its first example;
  an exception that ends the iterator is raised after the examples yielded before it
  have gone through the loop body.
\<close>

definition read_full_med_mentions ::
  "(string \<Rightarrow> int option) \<Rightarrow> (string \<Rightarrow> error + string) \<Rightarrow> filesystem \<Rightarrow> string \<Rightarrow> (string \<rightharpoonup> string) option
     \<Rightarrow> bool \<Rightarrow> bool \<Rightarrow> error + (split_item list \<times> split_item list \<times> split_item list)" where
  "read_full_med_mentions to_int resolve fs directory_path label_mapping span_only spacy_format =
     (case resolve directory_path of
        Inl e \<Rightarrow> Inl e
      | Inr resolved_directory_path \<Rightarrow>
          (let corpus = path_join resolved_directory_path (expected_names ! 0);
               examples = med_mentions_example_iterator to_int fs corpus
           in case read_ids fs (path_join resolved_directory_path (expected_names ! 4)) of
                Inl e \<Rightarrow> Inl e
              | Inr train_ids \<Rightarrow>
             (case read_ids fs (path_join resolved_directory_path (expected_names ! 2)) of
                Inl e \<Rightarrow> Inl e
              | Inr dev_ids \<Rightarrow>
             (case read_ids fs (path_join resolved_directory_path (expected_names ! 3)) of
                Inl e \<Rightarrow> Inl e
              | Inr test_ids \<Rightarrow>
             (case route_examples label_mapping span_only spacy_format train_ids dev_ids test_ids
                     \<lparr>train_examples = [], dev_examples = [], test_examples = []\<rparr>
                     (fst examples) of
                Inl e \<Rightarrow> Inl e
              | Inr acc \<Rightarrow>
                  (case snd examples of
                     Some e \<Rightarrow> Inl e
                   | None \<Rightarrow> Inr (train_examples acc, dev_examples acc, test_examples acc)))))))"

section \<open>The BIO Sentence Converter\<close>

text \<open>The local variables of \<open>_handle_sentence\<close>.\<close>

record sentence_state =
  start_index :: int
  current_index :: int
  in_entity :: bool
  entity_type :: string
  sent :: string
  spans :: "(int \<times> int \<times> string) list"  \<comment> \<open>the local list \<open>entities\<close>\<close>

definition initial_state :: sentence_state where
  "initial_state =
     \<lparr>start_index = -1, current_index = 0, in_entity = False,
      entity_type = [], sent = [], spans = []\<rparr>"

definition close_span :: "sentence_state \<Rightarrow> sentence_state" where
  \<comment> \<open>\<open>end_index = current_index - 1; entities.append((start_index, end_index, entity_type))\<close>\<close>
  "close_span s =
     s\<lparr>spans := spans s @ [(start_index s, current_index s - 1, entity_type s)]\<rparr>"

definition sentence_step :: "sentence_state \<Rightarrow> string \<times> string \<Rightarrow> sentence_state" where
  \<comment> \<open>One pass of the loop body, for the pair \<open>(word, entity)\<close>.\<close>
  "sentence_step s0 p =
     (case p of (word, entity) \<Rightarrow>
        let s1 = s0\<lparr>sent := sent s0 @ word @ '' ''\<rparr>;
            s2 = (if entity \<noteq> ''O''
                  then (if in_entity s1 then s1
                        else s1\<lparr>start_index := current_index s1,
                                in_entity := True,
                                entity_type := py_upper (drop 2 entity)\<rparr>)
                  else (let s' = (if in_entity s1 then close_span s1 else s1)
                        in s'\<lparr>in_entity := False, entity_type := [], start_index := -1\<rparr>))
        in s2\<lparr>current_index := current_index s2 + (int (length word) + 1)\<rparr>)"

definition handle_sentence :: "(string \<times> string) list \<Rightarrow> SpacyNerExample" where
  \<comment> \<open>\<open>_handle_sentence\<close>; \<open>sent[:-1]\<close> is \<open>butlast\<close>, also on the empty string.\<close>
  "handle_sentence examples =
     (let s = foldl sentence_step initial_state examples;
          s' = (if in_entity s then close_span s else s)
      in (butlast (sent s'), spans s'))"

section \<open>The BIO Stream Reader\<close>

fun ner_lines ::
  "SpacyNerExample list \<Rightarrow> (string \<times> string) list \<Rightarrow> string list
     \<Rightarrow> error + SpacyNerExample list" where
  \<comment> \<open>The loop over the lines of the file and the flush after it.\<close>
  "ner_lines spacy_format_data examples [] =
     Inr (if examples \<noteq> [] then spacy_format_data @ [handle_sentence examples]
          else spacy_format_data)"
| "ner_lines spacy_format_data examples (raw_line # rest) =
     (let line = py_strip raw_line
      in if take 10 line = ''-DOCSTART-'' then ner_lines spacy_format_data examples rest
         else if line = []
         then (if examples = [] then ner_lines spacy_format_data examples rest
               else ner_lines (spacy_format_data @ [handle_sentence examples]) [] rest)
         else (case py_split CHR 0x09 line of
                 [word, entity] \<Rightarrow>
                   ner_lines spacy_format_data (examples @ [(word, entity)]) rest
               | _ \<Rightarrow> Inl ValueError))"

definition read_ner_from_tsv ::
  "(string \<Rightarrow> error + string) \<Rightarrow> filesystem \<Rightarrow> string \<Rightarrow> error + SpacyNerExample list" where
  "read_ner_from_tsv cached_path fs filename =
     (case cached_path filename of
        Inl e \<Rightarrow> Inl e
      | Inr path \<Rightarrow>
          (case fs path of
             None \<Rightarrow> Inl FileNotFoundError
           | Some tsv_lines \<Rightarrow> ner_lines [] [] tsv_lines))"

section \<open>Notions of the specification\<close>

definition cursor :: "(string \<times> string) list \<Rightarrow> int" where
  \<comment> \<open>The character cursor after the given words: each counts its length and one
      joining space.\<close>
  "cursor examples = (\<Sum>p\<leftarrow>examples. int (length (fst p)) + 1)"

fun runs ::
  "(string \<times> string) list \<Rightarrow> (string \<times> string) list \<Rightarrow> (string \<times> string) list
     \<Rightarrow> ((string \<times> string) list \<times> (string \<times> string) list) list" where
  \<comment> \<open>The contiguous runs of pairs whose tag is not \<open>O\<close>, first to last, each with the
      pairs that come before it; \<open>pre\<close> and \<open>cur\<close> are the pairs already passed and the
      run under way.\<close>
  "runs pre cur [] = (if cur = [] then [] else [(pre, cur)])"
| "runs pre cur (x # xs) =
     (if snd x \<noteq> ''O'' then runs pre (cur @ [x]) xs
      else (if cur = [] then [] else [(pre, cur)]) @ runs (pre @ cur @ [x]) [] xs)"

definition maximal_run ::
  "(string \<times> string) list \<Rightarrow> (string \<times> string) list \<Rightarrow> (string \<times> string) list \<Rightarrow> bool" where
  \<comment> \<open>\<open>run\<close>, found after \<open>pre\<close> in the sentence, is a contiguous run of tags other
      than \<open>O\<close> that cannot be extended on either side.\<close>
  "maximal_run examples pre run \<longleftrightarrow>
     run \<noteq> [] \<and> (\<forall>x\<in>set run. snd x \<noteq> ''O'') \<and>
     (\<exists>post. examples = pre @ run @ post \<and>
        (pre = [] \<or> snd (last pre) = ''O'') \<and> (post = [] \<or> snd (hd post) = ''O''))"

definition span_of ::
  "(string \<times> string) list \<times> (string \<times> string) list \<Rightarrow> int \<times> int \<times> string" where
  \<comment> \<open>The span of a run: from the cursor before its first word to one less than the
      cursor after its last word, typed by its first tag.\<close>
  "span_of pr =
     (case pr of (pre, run) \<Rightarrow>
        (cursor pre, cursor (pre @ run) - 1, py_upper (drop 2 (snd (hd run)))))"

definition routed ::
  "(string \<rightharpoonup> string) option \<Rightarrow> bool \<Rightarrow> bool \<Rightarrow> MedMentionExample \<Rightarrow> split_item \<Rightarrow> bool" where
  \<comment> \<open>\<open>item\<close> is what the splitter appends for \<open>example\<close>.\<close>
  "routed label_mapping span_only spacy_format example item =
     (case spacy_format_entities label_mapping span_only (entities example) of
        Inl e \<Rightarrow> False
      | Inr labelled \<Rightarrow>
          item = (if spacy_format then SpacyExample (text' example, labelled)
                  else Document example))"

definition count_char :: "char \<Rightarrow> string \<Rightarrow> nat" where
  "count_char c s = length (filter (\<lambda>x. x = c) s)"

definition well_formed_block :: "(string \<Rightarrow> int option) \<Rightarrow> string list \<Rightarrow> bool" where
  \<comment> \<open>The format of a block, from the specification: a title line and an abstract line
      with at least two bars each, then lines of exactly six tab-separated fields (five
      tabs) whose second and third fields \<open>int\<close> reads.\<close>
  "well_formed_block to_int lines \<longleftrightarrow>
     2 \<le> length lines \<and>
     2 \<le> count_char CHR ''|'' (lines ! 0) \<and>
     2 \<le> count_char CHR ''|'' (lines ! 1) \<and>
     (\<forall>l\<in>set (drop 2 lines).
        count_char CHR 0x09 l = 5 \<and>
        to_int (py_split CHR 0x09 l ! 1) \<noteq> None \<and>
        to_int (py_split CHR 0x09 l ! 2) \<noteq> None)"

definition partitioned ::
  "(string \<rightharpoonup> string) option \<Rightarrow> bool \<Rightarrow> bool \<Rightarrow> string set \<Rightarrow> string set \<Rightarrow> string set
     \<Rightarrow> MedMentionExample list \<Rightarrow> split_item list \<Rightarrow> split_item list \<Rightarrow> split_item list
     \<Rightarrow> bool" where
  \<comment> \<open>The three lists hold, in the order of \<open>docs\<close>, what the splitter appends for the
      documents whose ID is in the train set; in the dev set and not in the train set;
      in the test set and in neither of the other two.\<close>
  "partitioned label_mapping span_only spacy_format train_ids dev_ids test_ids docs
       train dev test \<longleftrightarrow>
     list_all2 (routed label_mapping span_only spacy_format)
       (filter (\<lambda>x. pubmed_id x \<in> train_ids) docs) train \<and>
     list_all2 (routed label_mapping span_only spacy_format)
       (filter (\<lambda>x. pubmed_id x \<notin> train_ids \<and> pubmed_id x \<in> dev_ids) docs) dev \<and>
     list_all2 (routed label_mapping span_only spacy_format)
       (filter (\<lambda>x. pubmed_id x \<notin> train_ids \<and> pubmed_id x \<notin> dev_ids
                     \<and> pubmed_id x \<in> test_ids) docs) test"

fun blocks_of :: "string list \<Rightarrow> string list list" where
  \<comment> \<open>The stripped lines of a file, cut at its blank lines: the lines before the first
      blank line, those between two blank lines, and those after the last one; any of
      them may be empty.\<close>
  "blocks_of [] = [] # []"
| "blocks_of (raw_line # rest) =
     (if py_strip raw_line = [] then [] # blocks_of rest
      else (case blocks_of rest of
              [] \<Rightarrow> [py_strip raw_line] # []
            | block # blocks \<Rightarrow> (py_strip raw_line # block) # blocks))"

definition corpus_blocks :: "string list \<Rightarrow> string list list" where
  \<comment> \<open>The blocks of a corpus file: every block that a blank line ends, empty or not,
      and the lines after the last blank line if there are any.\<close>
  "corpus_blocks file_lines =
     (let blocks = blocks_of file_lines
      in if last blocks = [] then butlast blocks else blocks)"

definition parses ::
  "(string \<Rightarrow> int option) \<Rightarrow> string list \<Rightarrow> MedMentionExample \<Rightarrow> bool" where
  \<comment> \<open>The Record Parser accepts the block and gives the record.\<close>
  "parses to_int block example \<longleftrightarrow> process_example to_int block = Inr example"

section \<open>A small corpus\<close>

definition tab_line :: "string list \<Rightarrow> string" where
  "tab_line cells = py_join [CHR 0x09] cells"

definition demo_corpus :: "string list" where
  "demo_corpus =
     [''1|t|Cancer'', ''1|a|Cancer is bad.'',
      tab_line [''1'', ''0'', ''6'', ''Cancer'', ''T191,T192'', ''C0006826''],
      '''',
      ''2|t|Flu'', ''2|a|Flu is mild.'',
      '''',
      ''3|t|Cold'', ''3|a|Cold is common.'',
      '''',
      ''4|t|Gout'', ''4|a|Gout hurts.'',
      '''',
      ''5|t|Acne'', ''5|a|Acne fades.'',
      tab_line [''5'', ''0'', ''4'', ''Acne'', ''T047'', ''C0702166'']]"

definition demo_fs :: filesystem where
  \<comment> \<open>A directory \<open>d\<close> with the corpus and the three ID lists that are read; ID 3 is
      in two lists, ID 5 in none, and there is no \<open>corpus_pubtator_pmids_all.txt\<close>.\<close>
  "demo_fs =
     [''d/corpus_pubtator.txt'' \<mapsto> demo_corpus,
      ''d/corpus_pubtator_pmids_trng.txt'' \<mapsto> [''1'', ''3''],
      ''d/corpus_pubtator_pmids_dev.txt'' \<mapsto> [''2'', ''3''],
      ''d/corpus_pubtator_pmids_test.txt'' \<mapsto> [''4'']]"

definition demo_docs :: "MedMentionExample list" where
  \<comment> \<open>The five documents of the small corpus.\<close>
  "demo_docs =
     [\<lparr>title = ''Cancer'', abstract = ''Cancer is bad.'',
        text' = ''Cancer Cancer is bad.'', pubmed_id = ''1'',
        entities = [\<lparr>start = 0, end' = 6, mention_text = ''Cancer'',
                     mention_type = ''T191'', umls_id = ''C0006826''\<rparr>]\<rparr>,
      \<lparr>title = ''Flu'', abstract = ''Flu is mild.'',
        text' = ''Flu Flu is mild.'', pubmed_id = ''2'', entities = []\<rparr>,
      \<lparr>title = ''Cold'', abstract = ''Cold is common.'',
        text' = ''Cold Cold is common.'', pubmed_id = ''3'', entities = []\<rparr>,
      \<lparr>title = ''Gout'', abstract = ''Gout hurts.'',
        text' = ''Gout Gout hurts.'', pubmed_id = ''4'', entities = []\<rparr>,
      \<lparr>title = ''Acne'', abstract = ''Acne fades.'', text' = ''Acne Acne fades.'',
        pubmed_id = ''5'',
        entities = [\<lparr>start = 0, end' = 4, mention_text = ''Acne'',
                     mention_type = ''T047'', umls_id = ''C0702166''\<rparr>]\<rparr>]"

section \<open>Notions of the proofs\<close>

definition finish :: "sentence_state \<Rightarrow> sentence_state" where
  \<comment> \<open>The closing of a span that is open when the loop ends.\<close>
  "finish s = (if in_entity s then close_span s else s)"

definition tracks ::
  "sentence_state \<Rightarrow> (string \<times> string) list \<Rightarrow> (string \<times> string) list \<Rightarrow> bool" where
  \<comment> \<open>The loop invariant: the state after the pairs \<open>pre @ cur\<close>, where \<open>cur\<close> is the
      run under way.\<close>
  "tracks s pre cur \<longleftrightarrow>
     current_index s = cursor (pre @ cur) \<and> (in_entity s \<longleftrightarrow> cur \<noteq> []) \<and>
     (cur \<noteq> [] \<longrightarrow> start_index s = cursor pre \<and> entity_type s = py_upper (drop 2 (snd (hd cur))))"

fun parse_blocks ::
  "(string \<Rightarrow> int option) \<Rightarrow> string list list \<Rightarrow> MedMentionExample list \<times> error option" where
  \<comment> \<open>The blocks parsed in order, up to the first that the parser refuses.\<close>
  "parse_blocks to_int [] = ([], None)"
| "parse_blocks to_int (block # blocks) =
     (case process_example to_int block of
        Inl e \<Rightarrow> ([], Some e)
      | Inr example \<Rightarrow>
          (case parse_blocks to_int blocks of
             (examples, err) \<Rightarrow> (example # examples, err)))"

section \<open>The sentence and the cursor\<close>

lemma sentence_step_sent: "sent (sentence_step s p) = sent s @ fst p @ '' ''"
  by (cases p) (simp add: sentence_step_def Let_def close_span_def)

lemma sentence_step_current_index:
  "current_index (sentence_step s p) = current_index s + (int (length (fst p)) + 1)"
  by (cases p) (simp add: sentence_step_def Let_def close_span_def)

lemma foldl_sent:
  "sent (foldl sentence_step s xs) = sent s @ concat (map (\<lambda>p. fst p @ '' '') xs)"
  by (induction xs arbitrary: s) (simp_all add: sentence_step_sent)

lemma foldl_current_index:
  "current_index (foldl sentence_step s xs) = current_index s + cursor xs"
  by (induction xs arbitrary: s) (simp_all add: sentence_step_current_index cursor_def)

lemma close_span_sent: "sent (close_span s) = sent s"
  by (simp add: close_span_def)

lemma handle_sentence_sent:
  "fst (handle_sentence examples) = butlast (concat (map (\<lambda>p. fst p @ '' '') examples))"
  by (simp add: handle_sentence_def Let_def foldl_sent initial_state_def close_span_sent)

lemma butlast_concat_join:
  "butlast (concat (map (\<lambda>w. w @ '' '') ws)) = py_join '' '' ws"
proof (induction "'' ''" ws rule: py_join.induct)
  case (3 w v ws)
  then show ?case by (simp add: butlast_append)
qed simp_all

lemma py_split_no_sep: "sep \<notin> set w \<Longrightarrow> py_split sep w = [w]"
  by (induction w) auto

lemma py_split_append_sep:
  "sep \<notin> set w \<Longrightarrow> py_split sep (w @ sep # rest) = w # py_split sep rest"
  by (induction w) auto

lemma py_split_join:
  "ws \<noteq> [] \<Longrightarrow> \<forall>w\<in>set ws. sep \<notin> set w \<Longrightarrow> py_split sep (py_join [sep] ws) = ws"
proof (induction "[sep]" ws rule: py_join.induct)
  case 1
  then show ?case by simp
next
  case (2 w)
  then show ?case by (simp add: py_split_no_sep)
next
  case (3 w v ws)
  then show ?case by (simp add: py_split_append_sep)
qed

lemma cursor_append: "cursor (xs @ ys) = cursor xs + cursor ys"
  by (simp add: cursor_def)

lemma cursor_Cons: "cursor (x # xs) = int (length (fst x)) + 1 + cursor xs"
  by (simp add: cursor_def)

lemma cursor_Nil: "cursor [] = 0"
  by (simp add: cursor_def)

lemma tracks_step_open:
  assumes "tracks s pre cur" "snd x \<noteq> ''O''"
  shows "tracks (sentence_step s x) pre (cur @ [x])"
    and "spans (sentence_step s x) = spans s"
  using assms
  by (cases x; auto simp: tracks_def sentence_step_def Let_def cursor_append cursor_Cons cursor_Nil)+

lemma tracks_step_O:
  assumes "tracks s pre cur" "snd x = ''O''"
  shows "tracks (sentence_step s x) (pre @ cur @ [x]) []"
    and "spans (sentence_step s x) = spans s @ (if cur = [] then [] else [span_of (pre, cur)])"
  using assms
  by (cases x; auto simp: tracks_def sentence_step_def Let_def cursor_append cursor_Cons cursor_Nil
        close_span_def span_of_def)+

lemma spans_foldl:
  "tracks s pre cur \<Longrightarrow>
   spans (finish (foldl sentence_step s xs)) = spans s @ map span_of (runs pre cur xs)"
proof (induction xs arbitrary: s pre cur)
  case Nil
  then show ?case
    by (auto simp: finish_def tracks_def close_span_def span_of_def)
next
  case (Cons x xs)
  show ?case
  proof (cases "snd x = ''O''")
    case True
    from tracks_step_O[OF Cons.prems True] Cons.IH[of "sentence_step s x" "pre @ cur @ [x]" "[]"]
    show ?thesis using True by simp
  next
    case False
    from tracks_step_open[OF Cons.prems False] Cons.IH[of "sentence_step s x" pre "cur @ [x]"]
    show ?thesis using False by simp
  qed
qed

lemma tracks_initial: "tracks initial_state [] []"
  by (simp add: tracks_def initial_state_def cursor_Nil)

lemma spans_are_runs:
  "snd (handle_sentence examples) = map span_of (runs [] [] examples)"
  using spans_foldl[OF tracks_initial, of examples]
  by (simp add: handle_sentence_def finish_def Let_def initial_state_def)

lemma run_unique:
  assumes cur: "\<forall>x\<in>set cur. snd x \<noteq> ''O''"
    and eq: "cur @ rest = p @ r @ post"
    and rest: "rest = [] \<or> snd (hd rest) = ''O''"
    and p: "p = [] \<or> snd (last p) = ''O''"
    and r: "r \<noteq> []" "\<forall>x\<in>set r. snd x \<noteq> ''O''"
    and post: "post = [] \<or> snd (hd post) = ''O''"
    and len: "length p \<le> length cur"
  shows "p = [] \<and> r = cur \<and> post = rest"
proof -
  have p_nil: "p = []"
  proof (rule ccontr)
    assume "p \<noteq> []"
    then have "last p \<in> set p" by simp
    moreover have "set p \<subseteq> set cur"
    proof -
      from eq have "take (length p) (cur @ rest) = p" by simp
      with len have "take (length p) cur = p" by simp
      then show ?thesis by (metis set_take_subset)
    qed
    ultimately have "last p \<in> set cur" by blast
    with cur have "snd (last p) \<noteq> ''O''" by blast
    with p \<open>p \<noteq> []\<close> show False by simp
  qed
  with eq have eq': "cur @ rest = r @ post" by simp
  have "length r = length cur"
  proof (rule ccontr)
    assume ne: "length r \<noteq> length cur"
    show False
    proof (cases "length r < length cur")
      case True
      define c' where "c' = drop (length r) cur"
      from True eq' have "post = c' @ rest" and "c' \<noteq> []"
        by (simp_all add: append_eq_append_conv_if c'_def)
      moreover have "set c' \<subseteq> set cur"
        unfolding c'_def by (rule set_drop_subset)
      ultimately have "hd post \<in> set cur" "post \<noteq> []"
        by (auto simp: hd_append)
      with cur post show False by blast
    next
      case False
      with ne have lt: "length cur < length r" by simp
      define r' where "r' = drop (length cur) r"
      from lt eq' have "rest = r' @ post" and "r' \<noteq> []"
        by (simp_all add: append_eq_append_conv_if r'_def)
      moreover have "set r' \<subseteq> set r"
        unfolding r'_def by (rule set_drop_subset)
      ultimately have "hd rest \<in> set r" "rest \<noteq> []"
        by (auto simp: hd_append)
      with r rest show False by blast
    qed
  qed
  with eq' p_nil show ?thesis by simp
qed

lemma run_unique_pre:
  assumes cur: "\<forall>x\<in>set cur. snd x \<noteq> ''O''"
    and eq: "pre @ cur @ rest = p @ r @ post"
    and len: "length pre \<le> length p" "length p \<le> length pre + length cur"
    and rest: "rest = [] \<or> snd (hd rest) = ''O''"
    and p: "p = [] \<or> snd (last p) = ''O''"
    and r: "r \<noteq> []" "\<forall>x\<in>set r. snd x \<noteq> ''O''"
    and post: "post = [] \<or> snd (hd post) = ''O''"
  shows "p = pre \<and> r = cur \<and> post = rest"
proof -
  define p' where "p' = drop (length pre) p"
  from eq have "take (length pre) (pre @ cur @ rest) = take (length pre) (p @ r @ post)"
    by simp
  with len(1) have "pre = take (length pre) p" by simp
  then have p_split: "p = pre @ p'"
    unfolding p'_def by (metis append_take_drop_id)
  with eq have "pre @ cur @ rest = pre @ p' @ r @ post" by simp
  then have "cur @ rest = p' @ r @ post" by simp
  note split = p_split this
  from split(1) len(2) have "length p' \<le> length cur" by simp
  moreover from p split(1) have "p' = [] \<or> snd (last p') = ''O''"
    by (cases "p' = []") simp_all
  ultimately have "p' = [] \<and> r = cur \<and> post = rest"
    using run_unique[OF cur split(2) rest _ r post] by blast
  with split(1) show ?thesis by simp
qed

lemma runs_mem:
  assumes "\<forall>x\<in>set cur. snd x \<noteq> ''O''" "pre = [] \<or> snd (last pre) = ''O''"
  shows "(p, r) \<in> set (runs pre cur xs) \<longleftrightarrow>
         r \<noteq> [] \<and> (\<forall>x\<in>set r. snd x \<noteq> ''O'') \<and>
         (\<exists>post. pre @ cur @ xs = p @ r @ post \<and> length pre \<le> length p \<and>
            (p = [] \<or> snd (last p) = ''O'') \<and> (post = [] \<or> snd (hd post) = ''O''))"
    (is "?L pre cur xs \<longleftrightarrow> ?R pre cur xs")
  using assms
proof (induction xs arbitrary: pre cur)
  case Nil
  show ?case
  proof
    assume "?L pre cur []"
    then have "p = pre" "r = cur" "cur \<noteq> []" by (auto split: if_splits)
    with Nil show "?R pre cur []" by auto
  next
    assume R: "?R pre cur []"
    then obtain post where post: "pre @ cur @ [] = p @ r @ post" "length pre \<le> length p"
      "p = [] \<or> snd (last p) = ''O''" "post = [] \<or> snd (hd post) = ''O''" by blast
    from post(1) have "length pre + length cur = length p + length r + length post"
      by (metis length_append append_Nil2 add.assoc)
    then have "length p \<le> length pre + length cur" by simp
    from run_unique_pre[OF Nil(1) post(1,2) this _ post(3) _ _ post(4)] R
    have "p = pre \<and> r = cur" by blast
    with R show "?L pre cur []" by auto
  qed
next
  case (Cons x xs)
  show ?case
  proof (cases "snd x = ''O''")
    case False
    with Cons.prems have "\<forall>y\<in>set (cur @ [x]). snd y \<noteq> ''O''" by simp
    from Cons.IH[OF this Cons.prems(2)] False show ?thesis by simp
  next
    case True
    have IH: "?L (pre @ cur @ [x]) [] xs \<longleftrightarrow> ?R (pre @ cur @ [x]) [] xs"
      by (rule Cons.IH) (simp_all add: True)
    show ?thesis
    proof
      assume "?L pre cur (x # xs)"
      then consider "cur \<noteq> []" "p = pre" "r = cur" | "?L (pre @ cur @ [x]) [] xs"
        using True by (auto split: if_splits)
      then show "?R pre cur (x # xs)"
      proof cases
        case 1
        with Cons.prems True show ?thesis by auto
      next
        case 2
        with IH have "?R (pre @ cur @ [x]) [] xs" by blast
        then show ?thesis by auto
      qed
    next
      assume R: "?R pre cur (x # xs)"
      then obtain post where post: "pre @ cur @ x # xs = p @ r @ post" "length pre \<le> length p"
        "p = [] \<or> snd (last p) = ''O''" "post = [] \<or> snd (hd post) = ''O''" by blast
      show "?L pre cur (x # xs)"
      proof (cases "length p \<le> length pre + length cur")
        case le: True
        from run_unique_pre[OF Cons.prems(1) post(1,2) le _ post(3) _ _ post(4)] R True
        have "p = pre \<and> r = cur" by simp
        with R True show ?thesis by auto
      next
        case False
        then have "length (pre @ cur @ [x]) \<le> length p" by simp
        with R post have "?R (pre @ cur @ [x]) [] xs" by auto
        with IH have "?L (pre @ cur @ [x]) [] xs" by blast
        then show ?thesis using True by simp
      qed
    qed
  qed
qed

lemma runs_maximal:
  "(pre, run) \<in> set (runs [] [] examples) \<longleftrightarrow> maximal_run examples pre run"
  using runs_mem[of "[]" "[]" pre run examples]
  by (simp add: maximal_run_def)

lemma py_slice_middle:
  "py_slice (a @ b @ c) (int (length a)) (int (length a) + int (length b)) = b"
  by (simp add: py_slice_def Let_def)

lemma length_padded:
  "int (length (concat (map (\<lambda>p. fst p @ '' '') xs))) = cursor xs"
  by (induction xs) (simp_all add: cursor_def)

lemma padded_nonempty: "xs \<noteq> [] \<Longrightarrow> concat (map (\<lambda>p. fst p @ '' '') xs) \<noteq> []"
  by (cases xs) simp_all

lemma butlast_middle:
  "b \<noteq> [] \<Longrightarrow> \<exists>t. butlast (a @ b @ c) = a @ butlast b @ t"
proof (cases "c = []")
  case True
  assume "b \<noteq> []"
  with True show ?thesis by (simp add: butlast_append)
next
  case False
  assume "b \<noteq> []"
  then have "b = butlast b @ [last b]" by simp
  then have "butlast (a @ b @ c) = a @ butlast b @ ([last b] @ butlast c)"
    using False by (metis append.assoc butlast_append)
  then show ?thesis by blast
qed

lemma slice_run:
  assumes "examples = pre @ run @ post" "run \<noteq> []"
  shows "py_slice (fst (handle_sentence examples)) (cursor pre) (cursor (pre @ run) - 1)
           = py_join '' '' (map fst run)"
proof -
  let ?pad = "\<lambda>xs. concat (map (\<lambda>p. fst p @ '' '') xs)"
  have ne: "?pad run \<noteq> []" using assms(2) by (rule padded_nonempty)
  have "fst (handle_sentence examples) = butlast (?pad pre @ ?pad run @ ?pad post)"
    by (simp add: handle_sentence_sent assms(1))
  with butlast_middle[OF ne] obtain t where
    sent: "fst (handle_sentence examples) = ?pad pre @ butlast (?pad run) @ t"
    by metis
  have "int (length (butlast (?pad run))) = cursor run - 1"
    using ne length_padded[of run] by (simp add: of_nat_diff Suc_leI)
  then have "cursor (pre @ run) - 1 = int (length (?pad pre)) + int (length (butlast (?pad run)))"
    by (simp add: cursor_append length_padded)
  moreover have "cursor pre = int (length (?pad pre))"
    by (simp add: length_padded)
  ultimately have "py_slice (fst (handle_sentence examples)) (cursor pre) (cursor (pre @ run) - 1)
      = butlast (?pad run)"
    unfolding sent by (simp only: py_slice_middle)
  also have "\<dots> = py_join '' '' (map fst run)"
    using butlast_concat_join[of "map fst run"] by (simp add: comp_def)
  finally show ?thesis .
qed

lemma sentence_length:
  "examples \<noteq> [] \<Longrightarrow> int (length (fst (handle_sentence examples))) = cursor examples - 1"
  using length_padded[of examples] padded_nonempty[of examples]
  by (simp add: handle_sentence_sent Suc_leI)

section \<open>The parser, the iterator and the splitter\<close>

lemma process_example_Inr:
  assumes "process_example to_int lines = Inr r"
  shows "\<exists>line0 line1 entity_lines.
           lines = line0 # line1 # entity_lines \<and>
           entities_of_lines to_int entity_lines = Inr (entities r)"
    and "text' r = title r @ '' '' @ abstract r"
  using assms
  by (auto simp: process_example_def split: list.splits sum.splits prod.splits)

lemma py_split_fields_no_sep: "f \<in> set (py_split sep s) \<Longrightarrow> sep \<notin> set f"
  by (induction s arbitrary: f) (auto split: if_splits list.splits)

lemma entity_of_line_Inr:
  assumes "entity_of_line to_int entity_line = Inr e"
  shows "length (py_split CHR 0x09 entity_line) = 6"
    and "to_int (py_split CHR 0x09 entity_line ! 1) = Some (start e)"
    and "to_int (py_split CHR 0x09 entity_line ! 2) = Some (end' e)"
    and "mention_type e = hd (py_split CHR '','' (py_split CHR 0x09 entity_line ! 4))"
    and "CHR '','' \<notin> set (mention_type e)"
proof -
  let ?fields = "py_split CHR 0x09 entity_line"
  from assms show len: "length ?fields = 6"
    by (auto simp: entity_of_line_def Let_def split: if_splits)
  from assms len obtain first_type others where
    ft: "py_split CHR '','' (?fields ! 4) = first_type # others" "mention_type e = first_type"
    and "to_int (?fields ! 1) = Some (start e)" "to_int (?fields ! 2) = Some (end' e)"
    by (auto simp: entity_of_line_def Let_def split: if_splits list.splits option.splits)
  then show "to_int (?fields ! 1) = Some (start e)" "to_int (?fields ! 2) = Some (end' e)"
    by simp_all
  from ft show "mention_type e = hd (py_split CHR '','' (?fields ! 4))" by simp
  from ft have "mention_type e \<in> set (py_split CHR '','' (?fields ! 4))" by simp
  then show "CHR '','' \<notin> set (mention_type e)" by (rule py_split_fields_no_sep)
qed

lemma entities_of_lines_Inr:
  "entities_of_lines to_int ls = Inr es \<Longrightarrow>
     length es = length ls \<and> (\<forall>i<length ls. entity_of_line to_int (ls ! i) = Inr (es ! i))"
proof (induction ls arbitrary: es)
  case Nil
  then show ?case by simp
next
  case (Cons l ls)
  then obtain x xs where x: "entity_of_line to_int l = Inr x" "entities_of_lines to_int ls = Inr xs" "es = x # xs"
    by (auto split: sum.splits)
  from Cons.IH[OF x(2)] x(1,3) show ?case
    by (auto simp: nth_Cons split: nat.splits)
qed

lemma process_example_Nil: "process_example to_int [] = Inl IndexError"
  by (simp add: process_example_def)

lemma example_blocks_empty_block:
  assumes "py_strip l = []"
    and "example_blocks to_int buf before = (docs, None)"
    and "before = [] \<longrightarrow> buf = []"
    and "before \<noteq> [] \<longrightarrow> py_strip (last before) = []"
  shows "example_blocks to_int buf (before @ l # after) = (docs, Some IndexError)"
  using assms(2-)
proof (induction before arbitrary: buf docs)
  case Nil
  then show ?case using assms(1) by (simp add: process_example_Nil)
next
  case (Cons b bs)
  show ?case
  proof (cases "py_strip b = []")
    case False
    with Cons.prems(3) have bs: "bs \<noteq> []" by auto
    from Cons.prems(1) False have "example_blocks to_int (buf @ [py_strip b]) bs = (docs, None)"
      by (simp add: Let_def)
    from Cons.IH[OF this] bs Cons.prems(3) False show ?thesis
      by (simp add: Let_def)
  next
    case True
    with Cons.prems(1) obtain example docs' where
      ex: "process_example to_int buf = Inr example" "example_blocks to_int [] bs = (docs', None)"
          "docs = example # docs'"
      by (auto simp: Let_def split: sum.splits prod.splits)
    from Cons.prems(3) have "bs \<noteq> [] \<longrightarrow> py_strip (last bs) = []" by (simp split: if_splits)
    from Cons.IH[OF ex(2) _ this] ex(1,3) True show ?thesis
      by (simp add: Let_def)
  qed
qed

lemma example_blocks_empty_block_fails:
  assumes "py_strip l = []"
    and "before = [] \<longrightarrow> buf = []"
    and "before \<noteq> [] \<longrightarrow> py_strip (last before) = []"
  shows "snd (example_blocks to_int buf (before @ l # after)) \<noteq> None"
  using assms(2-)
proof (induction before arbitrary: buf)
  case Nil
  then show ?case using assms(1) by (simp add: process_example_Nil)
next
  case (Cons b bs)
  show ?case
  proof (cases "py_strip b = []")
    case False
    with Cons.prems(2) have bs: "bs \<noteq> []" by auto
    with Cons.IH[of "buf @ [py_strip b]"] Cons.prems(2) False show ?thesis
      by (simp add: Let_def)
  next
    case True
    from Cons.prems(2) have "bs \<noteq> [] \<longrightarrow> py_strip (last bs) = []" by (simp split: if_splits)
    from Cons.IH[of "[]", OF _ this] True show ?thesis
      by (auto simp: Let_def split: sum.splits prod.splits)
  qed
qed

lemma ner_lines_skip_blank:
  "py_strip l = [] \<Longrightarrow> ner_lines data [] (l # rest) = ner_lines data [] rest"
  by (simp add: Let_def)

lemma label_function_error: "label_function lm so l = Inl err \<Longrightarrow> err = KeyError"
  by (auto simp: label_function_def split: if_splits option.splits)

lemma spacy_format_entities_error:
  "spacy_format_entities lm so es = Inl err \<Longrightarrow> err = KeyError"
  by (induction es arbitrary: err) (auto split: sum.splits dest: label_function_error)

lemma spacy_format_entities_unmapped:
  assumes "e \<in> set es" "mapping (mention_type e) = None"
  shows "spacy_format_entities (Some mapping) False es = Inl KeyError"
  using assms(1)
proof (induction es)
  case Nil
  then show ?case by simp
next
  case (Cons x xs)
  show ?case
  proof (cases "label_function (Some mapping) False (mention_type x)")
    case (Inl err)
    then show ?thesis by (simp add: label_function_error)
  next
    case (Inr label)
    with assms(2) have "x \<noteq> e" by (auto simp: label_function_def)
    with Cons have "spacy_format_entities (Some mapping) False xs = Inl KeyError" by simp
    with Inr show ?thesis by simp
  qed
qed

lemma route_examples_step_unmapped:
  assumes "e \<in> set (entities example)" "mapping (mention_type e) = None"
  shows "route_examples (Some mapping) False spacy_format train_ids dev_ids test_ids acc
           (example # rest) = Inl KeyError"
  using spacy_format_entities_unmapped[of e "entities example" mapping, OF assms] by simp

lemma route_examples_unmapped:
  assumes "example \<in> set examples" "e \<in> set (entities example)"
    "mapping (mention_type e) = None"
  shows "route_examples (Some mapping) False spacy_format train_ids dev_ids test_ids acc examples
           = Inl KeyError"
  using assms(1)
proof (induction examples arbitrary: acc)
  case Nil
  then show ?case by simp
next
  case (Cons x xs)
  show ?case
  proof (cases "spacy_format_entities (Some mapping) False (entities x)")
    case (Inl err)
    then show ?thesis by (simp add: spacy_format_entities_error)
  next
    case (Inr labelled)
    with spacy_format_entities_unmapped[of e "entities example" mapping, OF assms(2,3)]
    have "x \<noteq> example" by auto
    with Cons.prems have "example \<in> set xs" by simp
    from Cons.IH[OF this] Inr show ?thesis by (simp add: Let_def)
  qed
qed

lemma route_examples_Inr:
  assumes "route_examples lm so sf train_ids dev_ids test_ids acc examples = Inr acc'"
  shows "\<exists>tr dv te.
           train_examples acc' = train_examples acc @ tr \<and>
           dev_examples acc' = dev_examples acc @ dv \<and>
           test_examples acc' = test_examples acc @ te \<and>
           list_all2 (routed lm so sf)
             (filter (\<lambda>x. pubmed_id x \<in> train_ids) examples) tr \<and>
           list_all2 (routed lm so sf)
             (filter (\<lambda>x. pubmed_id x \<notin> train_ids \<and> pubmed_id x \<in> dev_ids) examples) dv \<and>
           list_all2 (routed lm so sf)
             (filter (\<lambda>x. pubmed_id x \<notin> train_ids \<and> pubmed_id x \<notin> dev_ids
                           \<and> pubmed_id x \<in> test_ids) examples) te"
  using assms
proof (induction examples arbitrary: acc)
  case Nil
  then show ?case by simp
next
  case (Cons x xs)
  from Cons.prems obtain labelled where
    lab: "spacy_format_entities lm so (entities x) = Inr labelled"
    by (auto split: sum.splits)
  define item where
    "item = (if sf then SpacyExample (text' x, labelled) else Document x)"
  have item: "routed lm so sf x item"
    by (simp add: routed_def lab item_def)
  define acc1 where
    "acc1 = (if pubmed_id x \<in> train_ids
             then acc\<lparr>train_examples := train_examples acc @ [item]\<rparr>
             else if pubmed_id x \<in> dev_ids
             then acc\<lparr>dev_examples := dev_examples acc @ [item]\<rparr>
             else if pubmed_id x \<in> test_ids
             then acc\<lparr>test_examples := test_examples acc @ [item]\<rparr>
             else acc)"
  have step: "route_examples lm so sf train_ids dev_ids test_ids acc (x # xs)
                = route_examples lm so sf train_ids dev_ids test_ids acc1 xs"
    using lab by (simp add: Let_def acc1_def item_def split del: if_split cong: if_cong)
  from Cons.IH[OF Cons.prems[unfolded step]] obtain tr dv te where
    IH: "train_examples acc' = train_examples acc1 @ tr"
        "dev_examples acc' = dev_examples acc1 @ dv"
        "test_examples acc' = test_examples acc1 @ te"
        "list_all2 (routed lm so sf) (filter (\<lambda>x. pubmed_id x \<in> train_ids) xs) tr"
        "list_all2 (routed lm so sf)
           (filter (\<lambda>x. pubmed_id x \<notin> train_ids \<and> pubmed_id x \<in> dev_ids) xs) dv"
        "list_all2 (routed lm so sf)
           (filter (\<lambda>x. pubmed_id x \<notin> train_ids \<and> pubmed_id x \<notin> dev_ids
                         \<and> pubmed_id x \<in> test_ids) xs) te"
    by blast
  consider (train) "pubmed_id x \<in> train_ids"
    | (dev) "pubmed_id x \<notin> train_ids" "pubmed_id x \<in> dev_ids"
    | (test) "pubmed_id x \<notin> train_ids" "pubmed_id x \<notin> dev_ids" "pubmed_id x \<in> test_ids"
    | (none) "pubmed_id x \<notin> train_ids" "pubmed_id x \<notin> dev_ids" "pubmed_id x \<notin> test_ids"
    by blast
  then show ?case
  proof cases
    case train
    with IH item show ?thesis
      by (intro exI[of _ "item # tr"] exI[of _ dv] exI[of _ te]) (simp add: acc1_def)
  next
    case dev
    with IH item show ?thesis
      by (intro exI[of _ tr] exI[of _ "item # dv"] exI[of _ te]) (simp add: acc1_def)
  next
    case test
    with IH item show ?thesis
      by (intro exI[of _ tr] exI[of _ dv] exI[of _ "item # te"]) (simp add: acc1_def)
  next
    case none
    with IH item show ?thesis
      by (intro exI[of _ tr] exI[of _ dv] exI[of _ te]) (simp add: acc1_def)
  qed
qed

lemma read_ids_Some: "fs path = Some id_lines \<Longrightarrow> read_ids fs path = Inr (set (map py_strip id_lines))"
  by (simp add: read_ids_def)

lemma read_ids_None: "fs path = None \<Longrightarrow> read_ids fs path = Inl FileNotFoundError"
  by (simp add: read_ids_def)

lemma read_ids_error: "read_ids fs path = Inl err \<Longrightarrow> err = FileNotFoundError"
  by (auto simp: read_ids_def split: option.splits)

lemma expected_names_nth:
  "expected_names ! 0 = ''corpus_pubtator.txt''"
  "expected_names ! 1 = ''corpus_pubtator_pmids_all.txt''"
  "expected_names ! 2 = ''corpus_pubtator_pmids_dev.txt''"
  "expected_names ! 3 = ''corpus_pubtator_pmids_test.txt''"
  "expected_names ! 4 = ''corpus_pubtator_pmids_trng.txt''"
  by (simp_all add: expected_names_def)

lemma iterator_missing:
  "fs filename = None \<Longrightarrow> med_mentions_example_iterator to_int fs filename = ([], Some FileNotFoundError)"
  by (simp add: med_mentions_example_iterator_def)

lemma splitter_missing_file:
  assumes "resolve directory_path = Inr d"
    and "fs (path_join d ''corpus_pubtator.txt'') = None
       \<or> fs (path_join d ''corpus_pubtator_pmids_trng.txt'') = None
       \<or> fs (path_join d ''corpus_pubtator_pmids_dev.txt'') = None
       \<or> fs (path_join d ''corpus_pubtator_pmids_test.txt'') = None"
  shows "read_full_med_mentions to_int resolve fs directory_path label_mapping span_only spacy_format
           = Inl FileNotFoundError"
proof (cases "fs (path_join d ''corpus_pubtator_pmids_trng.txt'') = None
       \<or> fs (path_join d ''corpus_pubtator_pmids_dev.txt'') = None
       \<or> fs (path_join d ''corpus_pubtator_pmids_test.txt'') = None")
  case True
  then show ?thesis
    using assms(1)
    by (auto simp: read_full_med_mentions_def expected_names_nth Let_def read_ids_None
        split: sum.splits dest: read_ids_error)
next
  case False
  with assms(2) have corpus: "fs (path_join d ''corpus_pubtator.txt'') = None" by blast
  from False obtain a b c where
    "fs (path_join d ''corpus_pubtator_pmids_trng.txt'') = Some a"
    "fs (path_join d ''corpus_pubtator_pmids_dev.txt'') = Some b"
    "fs (path_join d ''corpus_pubtator_pmids_test.txt'') = Some c"
    by auto
  then show ?thesis
    using assms(1) corpus
    by (simp add: read_full_med_mentions_def expected_names_nth Let_def read_ids_Some
        iterator_missing)
qed

lemma splitter_unmapped_type:
  assumes "resolve directory_path = Inr d"
    and "fs (path_join d ''corpus_pubtator_pmids_trng.txt'') = Some trng_lines"
    and "fs (path_join d ''corpus_pubtator_pmids_dev.txt'') = Some dev_lines"
    and "fs (path_join d ''corpus_pubtator_pmids_test.txt'') = Some test_lines"
    and "example \<in> set (fst (med_mentions_example_iterator to_int fs (path_join d ''corpus_pubtator.txt'')))"
    and "e \<in> set (entities example)"
    and "mapping (mention_type e) = None"
  shows "read_full_med_mentions to_int resolve fs directory_path (Some mapping) False spacy_format
           = Inl KeyError"
  using assms(1-4)
    route_examples_unmapped[of example _ e mapping, OF assms(5-7)]
  by (simp add: read_full_med_mentions_def expected_names_nth Let_def read_ids_Some)

section \<open>Which blocks the parser accepts\<close>

lemma py_split_nonempty: "py_split sep s \<noteq> []"
  by (induction s) (auto split: list.splits)

lemma length_py_split: "length (py_split sep s) = count_char sep s + 1"
proof (induction s)
  case Nil
  then show ?case by (simp add: count_char_def)
next
  case (Cons c cs)
  then show ?case
    using py_split_nonempty[of sep cs]
    by (cases "py_split sep cs") (auto simp: count_char_def)
qed

lemma hd_py_split: "hd (py_split sep s) = takeWhile (\<lambda>c. c \<noteq> sep) s"
proof (induction s)
  case Nil
  then show ?case by simp
next
  case (Cons c cs)
  then show ?case
    using py_split_nonempty[of sep cs]
    by (cases "py_split sep cs") auto
qed

lemma count_char_after_first:
  "sep \<in> set s \<Longrightarrow>
     count_char sep (tl (dropWhile (\<lambda>c. c \<noteq> sep) s)) = count_char sep s - 1"
  by (induction s) (auto simp: count_char_def)

lemma count_char_pos: "sep \<in> set s \<longleftrightarrow> 0 < count_char sep s"
  by (induction s) (auto simp: count_char_def)

lemma length_py_split_max:
  "length (py_split_max sep n s) = min n (count_char sep s) + 1"
proof (induction n arbitrary: s)
  case 0
  then show ?case by simp
next
  case (Suc n)
  show ?case
  proof (cases "sep \<in> set s")
    case True
    then have "0 < count_char sep s" by (simp add: count_char_pos)
    with True Suc show ?thesis by (simp add: count_char_after_first)
  next
    case False
    then have "count_char sep s = 0" using count_char_pos[of sep s] by simp
    with False show ?thesis by simp
  qed
qed

lemma strip_fields_accepts:
  "(\<exists>r. strip_fields l = Inr r) \<longleftrightarrow> 2 \<le> count_char CHR ''|'' l"
proof -
  have "length (py_split_max CHR ''|'' 2 l) = 3 \<longleftrightarrow> 2 \<le> count_char CHR ''|'' l"
    by (simp add: length_py_split_max min_def)
  then show ?thesis by (auto simp: strip_fields_def Let_def)
qed

lemma strip_fields_Inr:
  "strip_fields l = Inr (a, b, c) \<Longrightarrow>
     a = py_strip (py_split_max CHR ''|'' 2 l ! 0) \<and>
     c = py_strip (py_split_max CHR ''|'' 2 l ! 2)"
  by (auto simp: strip_fields_def Let_def split: if_splits)

lemma entity_of_line_accepts:
  "(\<exists>e. entity_of_line to_int l = Inr e) \<longleftrightarrow>
     count_char CHR 0x09 l = 5 \<and>
     to_int (py_split CHR 0x09 l ! 1) \<noteq> None \<and>
     to_int (py_split CHR 0x09 l ! 2) \<noteq> None"
proof -
  have len: "length (py_split CHR 0x09 l) = 6 \<longleftrightarrow> count_char CHR 0x09 l = 5"
    by (simp add: length_py_split)
  obtain t ts where "py_split CHR '','' (py_split CHR 0x09 l ! 4) = t # ts"
    using py_split_nonempty[of "CHR '',''" "py_split CHR 0x09 l ! 4"]
    by (cases "py_split CHR '','' (py_split CHR 0x09 l ! 4)") auto
  then show ?thesis
    unfolding len[symmetric]
    by (auto simp: entity_of_line_def Let_def split: option.splits)
qed

lemma entities_of_lines_accepts:
  "(\<exists>es. entities_of_lines to_int ls = Inr es) \<longleftrightarrow>
     (\<forall>l\<in>set ls. \<exists>e. entity_of_line to_int l = Inr e)"
  by (induction ls) (auto split: sum.splits)

lemma process_example_accepts:
  "(\<exists>r. process_example to_int lines = Inr r) \<longleftrightarrow> well_formed_block to_int lines"
proof (cases lines)
  case Nil
  then show ?thesis by (simp add: process_example_def well_formed_block_def)
next
  case (Cons line0 after0)
  show ?thesis
  proof (cases after0)
    case Nil
    with Cons show ?thesis
      by (auto simp: process_example_def well_formed_block_def split: sum.splits)
  next
    case (Cons line1 entity_lines)
    note lines = \<open>lines = line0 # after0\<close> Cons
    have "(\<exists>r. process_example to_int lines = Inr r) \<longleftrightarrow>
          (\<exists>r0. strip_fields line0 = Inr r0) \<and> (\<exists>r1. strip_fields line1 = Inr r1) \<and>
          (\<exists>es. entities_of_lines to_int entity_lines = Inr es)"
      by (auto simp: process_example_def lines split: sum.splits)
    also have "\<dots> \<longleftrightarrow> well_formed_block to_int lines"
      by (simp add: strip_fields_accepts entities_of_lines_accepts entity_of_line_accepts
          well_formed_block_def lines del: split_paired_Ex)
    finally show ?thesis .
  qed
qed

lemma process_example_fields:
  assumes "process_example to_int lines = Inr r"
  shows "pubmed_id r = py_strip (py_split_max CHR ''|'' 2 (lines ! 0) ! 0)"
    and "title r = py_strip (py_split_max CHR ''|'' 2 (lines ! 0) ! 2)"
    and "abstract r = py_strip (py_split_max CHR ''|'' 2 (lines ! 1) ! 2)"
  using assms
  by (auto simp: process_example_def split: list.splits sum.splits prod.splits
      dest: strip_fields_Inr)

section \<open>The iterator before an empty block\<close>

lemma example_blocks_prefix_error:
  assumes "example_blocks to_int buf before = (docs, Some e)"
    and "before \<noteq> [] \<longrightarrow> py_strip (last before) = []"
    and "before = [] \<longrightarrow> buf = []"
  shows "example_blocks to_int buf (before @ rest) = (docs, Some e)"
  using assms
proof (induction before arbitrary: buf docs)
  case Nil
  then show ?case by simp
next
  case (Cons b bs)
  show ?case
  proof (cases "py_strip b = []")
    case False
    with Cons.prems(2) have bs: "bs \<noteq> []" by auto
    from Cons.prems(1) False
    have "example_blocks to_int (buf @ [py_strip b]) bs = (docs, Some e)"
      by (simp add: Let_def)
    from Cons.IH[OF this] bs Cons.prems(2) False show ?thesis
      by (simp add: Let_def)
  next
    case True
    show ?thesis
    proof (cases "process_example to_int buf")
      case (Inl err)
      with Cons.prems(1) True show ?thesis by (simp add: Let_def)
    next
      case (Inr example)
      with Cons.prems(1) True obtain docs' where
        ex: "example_blocks to_int [] bs = (docs', Some e)" "docs = example # docs'"
        by (auto simp: Let_def split: prod.splits)
      from Cons.prems(2) have "bs \<noteq> [] \<longrightarrow> py_strip (last bs) = []"
        by (simp split: if_splits)
      from Cons.IH[OF ex(1) this] ex(2) Inr True show ?thesis
        by (simp add: Let_def)
    qed
  qed
qed

section \<open>When the splitter returns\<close>

lemma label_function_cases:
  "label_function lm so l \<noteq> Inl KeyError \<longleftrightarrow> (\<exists>v. label_function lm so l = Inr v)"
  by (auto simp: label_function_def split: option.splits)

lemma spacy_format_entities_accepts:
  "(\<exists>labelled. spacy_format_entities lm so es = Inr labelled) \<longleftrightarrow>
     (\<forall>e\<in>set es. label_function lm so (mention_type e) \<noteq> Inl KeyError)"
  by (induction es) (auto simp: label_function_cases split: sum.splits)

lemma route_examples_accepts:
  "(\<exists>acc'. route_examples lm so sf train_ids dev_ids test_ids acc docs = Inr acc') \<longleftrightarrow>
     (\<forall>x\<in>set docs. \<forall>e\<in>set (entities x).
        label_function lm so (mention_type e) \<noteq> Inl KeyError)"
proof (induction docs arbitrary: acc)
  case Nil
  then show ?case by simp
next
  case (Cons x xs)
  show ?case
  proof (cases "spacy_format_entities lm so (entities x)")
    case (Inl err)
    with spacy_format_entities_accepts[of lm so "entities x"] show ?thesis by auto
  next
    case (Inr labelled)
    with spacy_format_entities_accepts[of lm so "entities x"]
    have ok: "\<forall>e\<in>set (entities x). label_function lm so (mention_type e) \<noteq> Inl KeyError"
      by auto
    from Inr Cons.IH ok show ?thesis
      by (simp add: Let_def split del: if_split cong: if_cong)
  qed
qed

section \<open>The iterator and the blocks of the file\<close>

lemma blocks_of_nonempty: "blocks_of file_lines \<noteq> []"
  by (induction file_lines) (auto split: list.splits)

lemma example_blocks_buffer:
  "example_blocks to_int buf rest =
     parse_blocks to_int
       (let blocks = (buf @ hd (blocks_of rest)) # tl (blocks_of rest)
        in if last blocks = [] then butlast blocks else blocks)"
proof (induction rest arbitrary: buf)
  case Nil
  then show ?case by (simp split: sum.splits)
next
  case (Cons raw_line rest)
  obtain block blocks where cut: "blocks_of rest = block # blocks"
    using blocks_of_nonempty[of rest] by (cases "blocks_of rest") auto
  show ?case
  proof (cases "py_strip raw_line = []")
    case True
    have "example_blocks to_int [] rest =
            parse_blocks to_int (if last (block # blocks) = [] then butlast (block # blocks)
                                 else block # blocks)"
      using Cons.IH[of "[]"] by (simp add: cut Let_def)
    with True show ?thesis
      by (simp add: cut Let_def split: sum.splits)
  next
    case False
    with Cons.IH[of "buf @ [py_strip raw_line]"] show ?thesis
      by (simp add: cut Let_def)
  qed
qed

lemma example_blocks_corpus_blocks:
  "example_blocks to_int [] file_lines = parse_blocks to_int (corpus_blocks file_lines)"
  using blocks_of_nonempty[of file_lines]
  by (simp add: example_blocks_buffer corpus_blocks_def)

lemma parse_blocks_None:
  "parse_blocks to_int blocks = (docs, None) \<longleftrightarrow> list_all2 (parses to_int) blocks docs"
proof (induction blocks arbitrary: docs)
  case Nil
  then show ?case by auto
next
  case (Cons block blocks)
  show ?case
  proof (cases "process_example to_int block")
    case (Inl err)
    then show ?thesis by (cases docs) (auto simp: parses_def)
  next
    case (Inr example)
    obtain docs' err where rest: "parse_blocks to_int blocks = (docs', err)"
      by (cases "parse_blocks to_int blocks") auto
    show ?thesis
    proof (cases docs)
      case Nil
      with Inr rest show ?thesis by simp
    next
      case (Cons x xs)
      with Inr rest Cons.IH[of xs] show ?thesis by (auto simp: parses_def)
    qed
  qed
qed

lemma parse_blocks_Some:
  "parse_blocks to_int blocks = (docs, Some e) \<longleftrightarrow>
     (\<exists>i<length blocks. list_all2 (parses to_int) (take i blocks) docs \<and>
        process_example to_int (blocks ! i) = Inl e)"
proof (induction blocks arbitrary: docs)
  case Nil
  then show ?case by simp
next
  case (Cons block blocks)
  show ?case
  proof (cases "process_example to_int block")
    case (Inl err)
    show ?thesis
    proof
      assume "parse_blocks to_int (block # blocks) = (docs, Some e)"
      with Inl have "docs = []" "err = e" by simp_all
      with Inl have "list_all2 (parses to_int) (take 0 (block # blocks)) docs \<and>
          process_example to_int ((block # blocks) ! 0) = Inl e"
        by simp
      then show "\<exists>i<length (block # blocks).
          list_all2 (parses to_int) (take i (block # blocks)) docs \<and>
          process_example to_int ((block # blocks) ! i) = Inl e"
        by blast
    next
      assume "\<exists>i<length (block # blocks).
          list_all2 (parses to_int) (take i (block # blocks)) docs \<and>
          process_example to_int ((block # blocks) ! i) = Inl e"
      then obtain i where i: "i < length (block # blocks)"
        "list_all2 (parses to_int) (take i (block # blocks)) docs"
        "process_example to_int ((block # blocks) ! i) = Inl e"
        by blast
      have "i = 0"
      proof (rule ccontr)
        assume "i \<noteq> 0"
        then obtain j where "i = Suc j" by (cases i) auto
        with i(2) Inl show False
          by (cases docs) (auto simp: parses_def)
      qed
      with i Inl show "parse_blocks to_int (block # blocks) = (docs, Some e)"
        by simp
    qed
  next
    case (Inr example)
    show ?thesis
    proof
      assume run: "parse_blocks to_int (block # blocks) = (docs, Some e)"
      with Inr obtain docs' where docs': "parse_blocks to_int blocks = (docs', Some e)"
        "docs = example # docs'"
        by (auto split: prod.splits)
      from Cons.IH[of docs'] docs'(1) obtain i where i: "i < length blocks"
        "list_all2 (parses to_int) (take i blocks) docs'"
        "process_example to_int (blocks ! i) = Inl e"
        by blast
      with Inr docs'(2) have "Suc i < length (block # blocks) \<and>
          list_all2 (parses to_int) (take (Suc i) (block # blocks)) docs \<and>
          process_example to_int ((block # blocks) ! Suc i) = Inl e"
        by (simp add: parses_def)
      then show "\<exists>i<length (block # blocks).
          list_all2 (parses to_int) (take i (block # blocks)) docs \<and>
          process_example to_int ((block # blocks) ! i) = Inl e"
        by blast
    next
      assume "\<exists>i<length (block # blocks).
          list_all2 (parses to_int) (take i (block # blocks)) docs \<and>
          process_example to_int ((block # blocks) ! i) = Inl e"
      then obtain i where i: "i < length (block # blocks)"
        "list_all2 (parses to_int) (take i (block # blocks)) docs"
        "process_example to_int ((block # blocks) ! i) = Inl e"
        by blast
      from i(3) Inr obtain j where j: "i = Suc j" by (cases i) auto
      with i(2) obtain docs' where docs': "docs = example # docs'"
        "list_all2 (parses to_int) (take j blocks) docs'"
        using Inr by (cases docs) (auto simp: parses_def)
      from i(1,3) j docs'(2) have "parse_blocks to_int blocks = (docs', Some e)"
        using Cons.IH[of docs'] by auto
      with Inr docs'(1) show "parse_blocks to_int (block # blocks) = (docs, Some e)"
        by simp
    qed
  qed
qed

lemma iterator_reads_all:
  "med_mentions_example_iterator to_int fs filename = (docs, None) \<longleftrightarrow>
     (\<exists>file_lines. fs filename = Some file_lines \<and>
        list_all2 (parses to_int) (corpus_blocks file_lines) docs)"
  by (auto simp: med_mentions_example_iterator_def example_blocks_corpus_blocks
      parse_blocks_None split: option.splits)

section \<open>The Record Parser: claims C8 and C3\<close>

text \<open>
  C8. The Record Parser accepts exactly the well-formed blocks, and for every block it
  accepts, the title and the abstract of the record are the stripped third parts of
  the first and the second line, and the text of the record is its title, one space,
  and its abstract.
\<close>

theorem process_example_text:
  "(well_formed_block to_int lines \<longleftrightarrow> (\<exists>record. process_example to_int lines = Inr record)) \<and>
   (\<forall>record. process_example to_int lines = Inr record \<longrightarrow>
      title record = py_strip (py_split_max CHR ''|'' 2 (lines ! 0) ! 2) \<and>
      abstract record = py_strip (py_split_max CHR ''|'' 2 (lines ! 1) ! 2) \<and>
      text' record = title record @ '' '' @ abstract record)"
  using process_example_accepts[of to_int lines]
  by (auto simp: process_example_fields process_example_Inr(2))

text \<open>Witness for C8: the block of Scenario 1.\<close>

theorem process_example_text_witness:
  "well_formed_block py_int
     [''1|t|Cancer'', ''1|a|Cancer is bad.'',
      tab_line [''1'', ''0'', ''6'', ''Cancer'', ''T191,T192'', ''C0006826'']] \<and>
   process_example py_int
     [''1|t|Cancer'', ''1|a|Cancer is bad.'',
      tab_line [''1'', ''0'', ''6'', ''Cancer'', ''T191,T192'', ''C0006826'']]
   = Inr \<lparr>title = ''Cancer'', abstract = ''Cancer is bad.'',
           text' = ''Cancer Cancer is bad.'', pubmed_id = ''1'',
           entities = [\<lparr>start = 0, end' = 6, mention_text = ''Cancer'',
                        mention_type = ''T191'', umls_id = ''C0006826''\<rparr>]\<rparr> \<and>
   py_strip (py_split_max CHR ''|'' 2 ''1|t|Cancer'' ! 2) = ''Cancer'' \<and>
   ''Cancer Cancer is bad.'' = ''Cancer'' @ '' '' @ ''Cancer is bad.''"
proof -
  let ?lines = "[''1|t|Cancer'', ''1|a|Cancer is bad.'',
      tab_line [''1'', ''0'', ''6'', ''Cancer'', ''T191,T192'', ''C0006826'']]"
  have wf: "well_formed_block py_int ?lines" by code_simp
  have parsed: "process_example py_int ?lines
   = Inr \<lparr>title = ''Cancer'', abstract = ''Cancer is bad.'',
           text' = ''Cancer Cancer is bad.'', pubmed_id = ''1'',
           entities = [\<lparr>start = 0, end' = 6, mention_text = ''Cancer'',
                        mention_type = ''T191'', umls_id = ''C0006826''\<rparr>]\<rparr>"
    by code_simp
  let ?rec = "\<lparr>title = ''Cancer'', abstract = ''Cancer is bad.'',
           text' = ''Cancer Cancer is bad.'', pubmed_id = ''1'',
           entities = [\<lparr>start = 0, end' = 6, mention_text = ''Cancer'',
                        mention_type = ''T191'', umls_id = ''C0006826''\<rparr>]\<rparr>"
  note th = process_example_text[of py_int ?lines, THEN conjunct2, rule_format, of ?rec,
      OF parsed]
  from th[THEN conjunct1, symmetric]
  have t: "py_strip (py_split_max CHR ''|'' 2 (?lines ! 0) ! 2) = ''Cancer''" by simp
  from wf parsed t show ?thesis by simp
qed

text \<open>
  C3 (as the code has it). The Record Parser accepts every well-formed block, and for
  every block it accepts there is one entity for each line after the first two; the
  type of the entity is the fifth field of its line up to the first comma, so that it
  contains no comma, and its start and end are the integers that \<open>int\<close> reads in the
  second and the third field. Nothing compares the two offsets with each other or
  with 0.
\<close>

theorem process_example_entities:
  "(well_formed_block to_int lines \<longrightarrow> (\<exists>record. process_example to_int lines = Inr record)) \<and>
   (\<forall>record. process_example to_int lines = Inr record \<longrightarrow>
      length (entities record) = length lines - 2 \<and>
      (\<forall>i<length (entities record).
         mention_type (entities record ! i)
           = takeWhile (\<lambda>c. c \<noteq> CHR '','') (py_split CHR 0x09 (lines ! (i + 2)) ! 4) \<and>
         CHR '','' \<notin> set (mention_type (entities record ! i)) \<and>
         to_int (py_split CHR 0x09 (lines ! (i + 2)) ! 1) = Some (start (entities record ! i)) \<and>
         to_int (py_split CHR 0x09 (lines ! (i + 2)) ! 2) = Some (end' (entities record ! i))))"
proof (intro conjI allI impI)
  assume "well_formed_block to_int lines"
  then show "\<exists>record. process_example to_int lines = Inr record"
    by (simp add: process_example_accepts)
next
  fix r assume accepted: "process_example to_int lines = Inr r"
  from process_example_Inr(1)[OF accepted] obtain line0 line1 entity_lines where
    lines: "lines = line0 # line1 # entity_lines"
    and ents: "entities_of_lines to_int entity_lines = Inr (entities r)"
    by blast
  from entities_of_lines_Inr[OF ents] have
    len: "length (entities r) = length entity_lines"
    and each: "\<And>i. i < length entity_lines \<Longrightarrow>
                 entity_of_line to_int (entity_lines ! i) = Inr (entities r ! i)"
    by simp_all
  show "length (entities r) = length lines - 2"
    by (simp add: len lines)
  fix i assume "i < length (entities r)"
  with len each have e: "entity_of_line to_int (entity_lines ! i) = Inr (entities r ! i)"
    by simp
  have nth: "lines ! (i + 2) = entity_lines ! i" by (simp add: lines)
  note facts = entity_of_line_Inr[OF e, folded nth]
  show "mention_type (entities r ! i)
          = takeWhile (\<lambda>c. c \<noteq> CHR '','') (py_split CHR 0x09 (lines ! (i + 2)) ! 4)"
    using facts(4) by (simp only: hd_py_split)
  show "CHR '','' \<notin> set (mention_type (entities r ! i))"
    by (rule facts(5))
  show "to_int (py_split CHR 0x09 (lines ! (i + 2)) ! 1) = Some (start (entities r ! i))"
    by (rule facts(2))
  show "to_int (py_split CHR 0x09 (lines ! (i + 2)) ! 2) = Some (end' (entities r ! i))"
    by (rule facts(3))
qed

text \<open>Witness for C3: the block of Scenario 1, whose one entity is entity 0.\<close>

theorem process_example_entities_witness:
  "well_formed_block py_int
     [''1|t|Cancer'', ''1|a|Cancer is bad.'',
      tab_line [''1'', ''0'', ''6'', ''Cancer'', ''T191,T192'', ''C0006826'']] \<and>
   process_example py_int
     [''1|t|Cancer'', ''1|a|Cancer is bad.'',
      tab_line [''1'', ''0'', ''6'', ''Cancer'', ''T191,T192'', ''C0006826'']]
   = Inr \<lparr>title = ''Cancer'', abstract = ''Cancer is bad.'',
           text' = ''Cancer Cancer is bad.'', pubmed_id = ''1'',
           entities = [\<lparr>start = 0, end' = 6, mention_text = ''Cancer'',
                        mention_type = ''T191'', umls_id = ''C0006826''\<rparr>]\<rparr>
   \<and> takeWhile (\<lambda>c. c \<noteq> CHR '','') (py_split CHR 0x09
         (tab_line [''1'', ''0'', ''6'', ''Cancer'', ''T191,T192'', ''C0006826'']) ! 4) = ''T191''
   \<and> CHR '','' \<notin> set ''T191''
   \<and> py_int (py_split CHR 0x09
         (tab_line [''1'', ''0'', ''6'', ''Cancer'', ''T191,T192'', ''C0006826'']) ! 1) = Some 0
   \<and> py_int (py_split CHR 0x09
         (tab_line [''1'', ''0'', ''6'', ''Cancer'', ''T191,T192'', ''C0006826'']) ! 2) = Some 6"
proof -
  let ?lines = "[''1|t|Cancer'', ''1|a|Cancer is bad.'',
      tab_line [''1'', ''0'', ''6'', ''Cancer'', ''T191,T192'', ''C0006826'']]"
  have wf: "well_formed_block py_int ?lines" by code_simp
  have parsed: "process_example py_int ?lines
   = Inr \<lparr>title = ''Cancer'', abstract = ''Cancer is bad.'',
           text' = ''Cancer Cancer is bad.'', pubmed_id = ''1'',
           entities = [\<lparr>start = 0, end' = 6, mention_text = ''Cancer'',
                        mention_type = ''T191'', umls_id = ''C0006826''\<rparr>]\<rparr>"
    by code_simp
  let ?rec = "\<lparr>title = ''Cancer'', abstract = ''Cancer is bad.'',
           text' = ''Cancer Cancer is bad.'', pubmed_id = ''1'',
           entities = [\<lparr>start = 0, end' = 6, mention_text = ''Cancer'',
                        mention_type = ''T191'', umls_id = ''C0006826''\<rparr>]\<rparr>"
  note th = process_example_entities[of py_int ?lines, THEN conjunct2, rule_format, of ?rec,
      OF parsed, THEN conjunct2, rule_format, of 0]
  have "(0::nat) < length (entities ?rec)" by simp
  note th0 = th[OF this]
  from th0[THEN conjunct1, symmetric]
  have a: "takeWhile (\<lambda>c. c \<noteq> CHR '','') (py_split CHR 0x09 (?lines ! 2) ! 4) = ''T191''"
    by simp
  have b: "CHR '','' \<notin> set ''T191''" by simp
  from th0[THEN conjunct2, THEN conjunct2, THEN conjunct1]
  have c: "py_int (py_split CHR 0x09 (?lines ! 2) ! 1) = Some 0" by simp
  from th0[THEN conjunct2, THEN conjunct2, THEN conjunct2]
  have d: "py_int (py_split CHR 0x09 (?lines ! 2) ! 2) = Some 6" by simp
  from wf parsed a b c d show ?thesis by simp
qed

text \<open>
  C3 (as the specification states it) fails: a block whose entity line gives the offsets
  6 and 0 is accepted, and the entity has start 6 and end 0.
\<close>

theorem process_example_offsets_counterexample:
  "process_example py_int
     [''1|t|Cancer'', ''1|a|Cancer is bad.'',
      tab_line [''1'', ''6'', ''0'', ''Cancer'', ''T191,T192'', ''C0006826'']]
   = Inr \<lparr>title = ''Cancer'', abstract = ''Cancer is bad.'',
           text' = ''Cancer Cancer is bad.'', pubmed_id = ''1'',
           entities = [\<lparr>start = 6, end' = 0, mention_text = ''Cancer'',
                        mention_type = ''T191'', umls_id = ''C0006826''\<rparr>]\<rparr>
   \<and> \<not> start \<lparr>start = 6, end' = 0, mention_text = ''Cancer'',
                 mention_type = ''T191'', umls_id = ''C0006826''\<rparr>
         \<le> end' \<lparr>start = 6, end' = 0, mention_text = ''Cancer'',
                 mention_type = ''T191'', umls_id = ''C0006826''\<rparr>"
  by code_simp

section \<open>The Sentence Converter: claims C1, C4 and C6\<close>

text \<open>
  C1 (as the code has it). For the BIO input John/B-PER, Smith/I-PER, died/O the
  converter returns the sentence "John Smith died" and the one span (0, 10, PER):
  the cursor before "died" is 11, so the span closes at 10.
\<close>

theorem handle_sentence_scenario2:
  "handle_sentence [(''John'', ''B-PER''), (''Smith'', ''I-PER''), (''died'', ''O'')]
     = (''John Smith died'', [(0, 10, ''PER'')])"
  by (simp add: handle_sentence_def sentence_step_def initial_state_def close_span_def
      py_upper_def upper_char_def)

text \<open>C1 (as the specification states it) fails: the span does not end at 9.\<close>

theorem handle_sentence_scenario2_counterexample:
  "handle_sentence [(''John'', ''B-PER''), (''Smith'', ''I-PER''), (''died'', ''O'')]
     \<noteq> (''John Smith died'', [(0, 9, ''PER'')])"
  by (simp add: handle_sentence_def sentence_step_def initial_state_def close_span_def
      py_upper_def upper_char_def)

text \<open>
  C4. After any words \<open>ws\<close> the cursor of the converter is \<open>cursor ws\<close>. The spans it
  returns are those of the contiguous runs of tags other than \<open>O\<close>, in order, one for
  each run: a run that an \<open>O\<close> word follows is closed at the cursor before that word
  less one, and a run that reaches the end of the sentence is closed at the end of the
  last word, which is the length of the sentence. For each run, the half-open slice of
  the sentence from start to end is the words of the run joined with single spaces.
  (An empty sentence has no run, so that it need not be excluded.)
\<close>

theorem handle_sentence_spans:
  "(\<forall>ws. current_index (foldl sentence_step initial_state ws) = cursor ws) \<and>
   snd (handle_sentence examples) = map span_of (runs [] [] examples) \<and>
   (\<forall>pre run. (pre, run) \<in> set (runs [] [] examples) \<longleftrightarrow> maximal_run examples pre run) \<and>
   (\<forall>pre run. maximal_run examples pre run \<longrightarrow>
      span_of (pre, run) \<in> set (snd (handle_sentence examples)) \<and>
      fst (snd (span_of (pre, run))) = cursor (pre @ run) - 1 \<and>
      (pre @ run = examples \<longrightarrow>
         fst (snd (span_of (pre, run))) = int (length (fst (handle_sentence examples)))) \<and>
      py_slice (fst (handle_sentence examples))
         (fst (span_of (pre, run))) (fst (snd (span_of (pre, run))))
        = py_join '' '' (map fst run))"
proof (intro conjI allI impI)
  fix ws show "current_index (foldl sentence_step initial_state ws) = cursor ws"
    by (simp add: foldl_current_index initial_state_def)
next
  show "snd (handle_sentence examples) = map span_of (runs [] [] examples)"
    by (rule spans_are_runs)
next
  fix pre run
  show "(pre, run) \<in> set (runs [] [] examples) \<longleftrightarrow> maximal_run examples pre run"
    by (rule runs_maximal)
next
  fix pre run assume m: "maximal_run examples pre run"
  then have "(pre, run) \<in> set (runs [] [] examples)" by (simp add: runs_maximal)
  then show "span_of (pre, run) \<in> set (snd (handle_sentence examples))"
    by (simp add: spans_are_runs)
  show "fst (snd (span_of (pre, run))) = cursor (pre @ run) - 1"
    by (simp add: span_of_def)
  from m obtain post where post: "examples = pre @ run @ post" and ne: "run \<noteq> []"
    by (auto simp: maximal_run_def)
  from slice_run[OF post ne]
  show "py_slice (fst (handle_sentence examples))
         (fst (span_of (pre, run))) (fst (snd (span_of (pre, run))))
        = py_join '' '' (map fst run)"
    by (simp add: span_of_def)
  assume whole: "pre @ run = examples"
  with ne have "examples \<noteq> []" by auto
  from sentence_length[OF this] whole
  show "fst (snd (span_of (pre, run))) = int (length (fst (handle_sentence examples)))"
    by (simp add: span_of_def)
qed

text \<open>
  Witness for C4: a sentence with a run that an \<open>O\<close> word closes and a run that the end
  of the sentence closes.
\<close>

theorem handle_sentence_spans_witness:
  "maximal_run
     [(''John'', ''B-PER''), (''Smith'', ''I-PER''), (''saw'', ''O''), (''Rome'', ''B-LOC'')]
     [] [(''John'', ''B-PER''), (''Smith'', ''I-PER'')] \<and>
   maximal_run
     [(''John'', ''B-PER''), (''Smith'', ''I-PER''), (''saw'', ''O''), (''Rome'', ''B-LOC'')]
     [(''John'', ''B-PER''), (''Smith'', ''I-PER''), (''saw'', ''O'')] [(''Rome'', ''B-LOC'')] \<and>
   handle_sentence
     [(''John'', ''B-PER''), (''Smith'', ''I-PER''), (''saw'', ''O''), (''Rome'', ''B-LOC'')]
     = (''John Smith saw Rome'', [(0, 10, ''PER''), (15, 19, ''LOC'')]) \<and>
   py_slice ''John Smith saw Rome'' 0 10 = ''John Smith'' \<and>
   py_slice ''John Smith saw Rome'' 15 19 = ''Rome'' \<and>
   int (length ''John Smith saw Rome'') = 19"
proof -
  let ?s = "[(''John'', ''B-PER''), (''Smith'', ''I-PER''), (''saw'', ''O''), (''Rome'', ''B-LOC'')]"
  let ?r1 = "[(''John'', ''B-PER''), (''Smith'', ''I-PER'')]"
  let ?p2 = "[(''John'', ''B-PER''), (''Smith'', ''I-PER''), (''saw'', ''O'')]"
  let ?r2 = "[(''Rome'', ''B-LOC'')]"
  have m1: "maximal_run ?s [] ?r1" and m2: "maximal_run ?s ?p2 ?r2"
    by (simp_all add: maximal_run_def)
  have s1: "span_of ([], ?r1) = (0, 10, ''PER'')" and s2: "span_of (?p2, ?r2) = (15, 19, ''LOC'')"
    by (simp_all add: span_of_def cursor_def py_upper_def upper_char_def)
  have r: "runs [] [] ?s = [([], ?r1), (?p2, ?r2)]" by simp
  have j: "py_join '' '' (map fst ?s) = ''John Smith saw Rome''" by simp
  have sent: "fst (handle_sentence ?s) = ''John Smith saw Rome''"
    by (simp add: handle_sentence_sent)
  from handle_sentence_spans[of ?s] have
    spans: "snd (handle_sentence ?s) = map span_of (runs [] [] ?s)"
    and each: "\<And>pre run. maximal_run ?s pre run \<Longrightarrow>
        (pre @ run = ?s \<longrightarrow>
           fst (snd (span_of (pre, run))) = int (length (fst (handle_sentence ?s)))) \<and>
        py_slice (fst (handle_sentence ?s))
          (fst (span_of (pre, run))) (fst (snd (span_of (pre, run))))
          = py_join '' '' (map fst run)"
    by blast+
  from spans have "handle_sentence ?s = (''John Smith saw Rome'', [(0, 10, ''PER''), (15, 19, ''LOC'')])"
    by (simp add: prod_eq_iff sent r s1 s2)
  moreover from each[OF m1] have "py_slice ''John Smith saw Rome'' 0 10 = ''John Smith''"
    by (simp add: sent s1)
  moreover from each[OF m2] have "py_slice ''John Smith saw Rome'' 15 19 = ''Rome''"
    and "int (length ''John Smith saw Rome'') = 19"
    by (simp_all add: sent s2)
  ultimately show ?thesis using m1 m2 by blast
qed

text \<open>
  C6 (as the code has it). For every non-empty sequence of (word, tag) pairs, the
  sentence of the converter is the words, each followed by a space, with the last space
  removed, which is the words joined with single spaces; and if no word contains a
  space, splitting the sentence on single spaces gives the words back.
\<close>

theorem handle_sentence_round_trip:
  assumes "examples \<noteq> []"
  shows "fst (handle_sentence examples)
           = butlast (concat (map (\<lambda>w. w @ '' '') (map fst examples))) \<and>
         fst (handle_sentence examples) = py_join '' '' (map fst examples) \<and>
         ((\<forall>w\<in>set (map fst examples). CHR '' '' \<notin> set w) \<longrightarrow>
            py_split CHR '' '' (fst (handle_sentence examples)) = map fst examples)"
proof -
  have 1: "fst (handle_sentence examples)
             = butlast (concat (map (\<lambda>w. w @ '' '') (map fst examples)))"
    by (simp add: handle_sentence_sent comp_def)
  then have 2: "fst (handle_sentence examples) = py_join '' '' (map fst examples)"
    by (simp only: butlast_concat_join)
  have "py_split CHR '' '' (py_join '' '' (map fst examples)) = map fst examples"
    if "\<forall>w\<in>set (map fst examples). CHR '' '' \<notin> set w"
    using py_split_join[of "map fst examples" "CHR '' ''"] assms that by simp
  with 1 2 show ?thesis by simp
qed

text \<open>Witness for C6: the sentence of Scenario 2.\<close>

theorem handle_sentence_round_trip_witness:
  "[(''John'', ''B-PER''), (''Smith'', ''I-PER''), (''died'', ''O'')] \<noteq> [] \<and>
   CHR '' '' \<notin> set ''John'' \<and> CHR '' '' \<notin> set ''Smith'' \<and> CHR '' '' \<notin> set ''died'' \<and>
   fst (handle_sentence [(''John'', ''B-PER''), (''Smith'', ''I-PER''), (''died'', ''O'')])
     = ''John Smith died'' \<and>
   py_split CHR '' ''
     (fst (handle_sentence [(''John'', ''B-PER''), (''Smith'', ''I-PER''), (''died'', ''O'')]))
     = [''John'', ''Smith'', ''died'']"
  using handle_sentence_round_trip
          [of "[(''John'', ''B-PER''), (''Smith'', ''I-PER''), (''died'', ''O'')]"]
  by simp

text \<open>
  C6 (as the specification states it) fails for a word that contains a space, which a
  line \<open>New York<TAB>B-LOC\<close> of the TSV file gives: splitting the sentence gives two
  words.
\<close>

theorem handle_sentence_round_trip_counterexample:
  "py_split CHR '' '' (fst (handle_sentence [(''New York'', ''B-LOC'')]))
     \<noteq> map fst [(''New York'', ''B-LOC'')]"
  by (simp add: handle_sentence_def sentence_step_def initial_state_def close_span_def)

section \<open>The Stream Iterator: claim C9\<close>

text \<open>
  C9 (as the code has it). Let the corpus file have a blank line \<open>l\<close> that comes first
  or straight after another blank line. The Record Parser fails with an index error on
  an empty list of lines, and the iterator does not run to the end of such a file: if
  the lines before \<open>l\<close> give the examples \<open>docs\<close> and no error, the iterator yields
  \<open>docs\<close> and then fails with that index error, the parser being called on the empty
  buffer; if they give the examples \<open>docs\<close> and the error \<open>e\<close>, the iterator yields
  \<open>docs\<close> and fails with \<open>e\<close>. In terms of the blocks of the lines before \<open>l\<close>: if the
  parser accepts every one of them, the iterator yields their records and then fails
  with the index error; if it accepts the first \<open>i\<close> of them and refuses the next with
  the error \<open>e\<close>, the iterator yields the records of the first \<open>i\<close> and fails with \<open>e\<close>.
  The BIO Stream Reader, on a blank line with its buffer empty, goes on to the next line
  with its data unchanged.
\<close>

theorem iterator_empty_block:
  assumes "fs filename = Some (before @ l # after)"
    and "py_strip l = []"
    and "before = [] \<or> py_strip (last before) = []"
  shows "process_example to_int [] = Inl IndexError \<and>
         snd (med_mentions_example_iterator to_int fs filename) \<noteq> None \<and>
         (\<forall>docs. example_blocks to_int [] before = (docs, None) \<longrightarrow>
            med_mentions_example_iterator to_int fs filename = (docs, Some IndexError)) \<and>
         (\<forall>docs e. example_blocks to_int [] before = (docs, Some e) \<longrightarrow>
            med_mentions_example_iterator to_int fs filename = (docs, Some e)) \<and>
         (\<forall>docs. list_all2 (parses to_int) (corpus_blocks before) docs \<longrightarrow>
            med_mentions_example_iterator to_int fs filename = (docs, Some IndexError)) \<and>
         (\<forall>i docs e.
            i < length (corpus_blocks before) \<and>
            list_all2 (parses to_int) (take i (corpus_blocks before)) docs \<and>
            process_example to_int (corpus_blocks before ! i) = Inl e \<longrightarrow>
            med_mentions_example_iterator to_int fs filename = (docs, Some e)) \<and>
         (\<forall>data rest. ner_lines data [] (l # rest) = ner_lines data [] rest)"
proof (intro conjI allI impI)
  show "process_example to_int [] = Inl IndexError" by (rule process_example_Nil)
next
  from assms(3) have "before \<noteq> [] \<longrightarrow> py_strip (last before) = []" by blast
  from example_blocks_empty_block_fails[OF assms(2) _ this, where buf = "[]" and after = after]
  show "snd (med_mentions_example_iterator to_int fs filename) \<noteq> None"
    by (simp add: med_mentions_example_iterator_def assms(1))
next
  fix docs assume "example_blocks to_int [] before = (docs, None)"
  moreover from assms(3) have "before \<noteq> [] \<longrightarrow> py_strip (last before) = []" by blast
  ultimately have "example_blocks to_int [] (before @ l # after) = (docs, Some IndexError)"
    using example_blocks_empty_block[OF assms(2)] by blast
  then show "med_mentions_example_iterator to_int fs filename = (docs, Some IndexError)"
    by (simp add: med_mentions_example_iterator_def assms(1))
next
  fix docs e assume "example_blocks to_int [] before = (docs, Some e)"
  moreover from assms(3) have "before \<noteq> [] \<longrightarrow> py_strip (last before) = []" by blast
  ultimately have "example_blocks to_int [] (before @ l # after) = (docs, Some e)"
    by (rule example_blocks_prefix_error) simp
  then show "med_mentions_example_iterator to_int fs filename = (docs, Some e)"
    by (simp add: med_mentions_example_iterator_def assms(1))
next
  fix docs assume "list_all2 (parses to_int) (corpus_blocks before) docs"
  then have "example_blocks to_int [] before = (docs, None)"
    by (simp add: example_blocks_corpus_blocks parse_blocks_None)
  moreover from assms(3) have "before \<noteq> [] \<longrightarrow> py_strip (last before) = []" by blast
  ultimately have "example_blocks to_int [] (before @ l # after) = (docs, Some IndexError)"
    using example_blocks_empty_block[OF assms(2)] by blast
  then show "med_mentions_example_iterator to_int fs filename = (docs, Some IndexError)"
    by (simp add: med_mentions_example_iterator_def assms(1))
next
  fix i docs e
  assume "i < length (corpus_blocks before) \<and>
            list_all2 (parses to_int) (take i (corpus_blocks before)) docs \<and>
            process_example to_int (corpus_blocks before ! i) = Inl e"
  then have "parse_blocks to_int (corpus_blocks before) = (docs, Some e)"
    unfolding parse_blocks_Some by blast
  then have "example_blocks to_int [] before = (docs, Some e)"
    by (simp add: example_blocks_corpus_blocks)
  moreover from assms(3) have "before \<noteq> [] \<longrightarrow> py_strip (last before) = []" by blast
  ultimately have "example_blocks to_int [] (before @ l # after) = (docs, Some e)"
    by (rule example_blocks_prefix_error) simp
  then show "med_mentions_example_iterator to_int fs filename = (docs, Some e)"
    by (simp add: med_mentions_example_iterator_def assms(1))
next
  fix data rest show "ner_lines data [] (l # rest) = ner_lines data [] rest"
    using assms(2) by (rule ner_lines_skip_blank)
qed

text \<open>Witness for C9: two blank lines between two well-formed blocks.\<close>

theorem iterator_empty_block_witness:
  "py_strip '''' = [] \<and>
   example_blocks py_int [] [''1|t|Flu'', ''1|a|Flu is mild.'', '''']
     = ([\<lparr>title = ''Flu'', abstract = ''Flu is mild.'', text' = ''Flu Flu is mild.'',
          pubmed_id = ''1'', entities = []\<rparr>], None) \<and>
   corpus_blocks [''1|t|Flu'', ''1|a|Flu is mild.'', ''''] = [''1|t|Flu'', ''1|a|Flu is mild.''] # [] \<and>
   med_mentions_example_iterator py_int
     [''corpus'' \<mapsto> [''1|t|Flu'', ''1|a|Flu is mild.'', '''', '''', ''2|t|Gout'', ''2|a|Gout hurts.'']]
     ''corpus''
     = ([\<lparr>title = ''Flu'', abstract = ''Flu is mild.'', text' = ''Flu Flu is mild.'',
          pubmed_id = ''1'', entities = []\<rparr>], Some IndexError) \<and>
   ner_lines [] [] ['''', tab_line [''Rome'', ''B-LOC'']]
     = ner_lines [] [] [tab_line [''Rome'', ''B-LOC'']]"
proof -
  let ?before = "[''1|t|Flu'', ''1|a|Flu is mild.'', '''']"
  let ?after = "[''2|t|Gout'', ''2|a|Gout hurts.'']"
  let ?fs = "[''corpus'' \<mapsto> ?before @ '''' # ?after]"
  have blank: "py_strip '''' = []" by (simp add: py_strip_def)
  have opened: "?fs ''corpus'' = Some (?before @ '''' # ?after)" by simp
  have last: "?before = [] \<or> py_strip (last ?before) = []" by (simp add: py_strip_def)
  have docs: "example_blocks py_int [] ?before
     = ([\<lparr>title = ''Flu'', abstract = ''Flu is mild.'', text' = ''Flu Flu is mild.'',
          pubmed_id = ''1'', entities = []\<rparr>], None)"
    by code_simp
  have blocks: "corpus_blocks ?before = [''1|t|Flu'', ''1|a|Flu is mild.''] # []"
    by code_simp
  from iterator_empty_block[where to_int = py_int and fs = ?fs and filename = "''corpus''"
        and before = ?before and l = "[]" and after = ?after, OF opened blank last]
    docs blank blocks
  show ?thesis by simp
qed

text \<open>
  C9 (as the specification states it) fails: in this file, with two consecutive blank
  lines, the block before them does not parse, and the iterator ends with the value
  error of that block; the parser is never called on an empty buffer.
\<close>

theorem iterator_empty_block_counterexample:
  "med_mentions_example_iterator py_int [''corpus'' \<mapsto> [''x'', '''', '''']] ''corpus''
     = ([], Some ValueError)"
  by code_simp

section \<open>The Corpus Splitter: claims C2, C5, C7 and C10\<close>

text \<open>
  C2 (as the code has it). For every resolved directory in which the corpus file or one
  of the three ID lists of the splits (train, dev, test) is missing, the Corpus Splitter
  fails with \<open>FileNotFoundError\<close>. The list of all IDs is never opened: with or
  without it, and whatever it holds, the result is the same.
\<close>

theorem read_full_med_mentions_missing_file:
  assumes "resolve directory_path = Inr d"
  shows "(fs (path_join d ''corpus_pubtator.txt'') = None
          \<or> fs (path_join d ''corpus_pubtator_pmids_trng.txt'') = None
          \<or> fs (path_join d ''corpus_pubtator_pmids_dev.txt'') = None
          \<or> fs (path_join d ''corpus_pubtator_pmids_test.txt'') = None
          \<longrightarrow> read_full_med_mentions to_int resolve fs directory_path label_mapping span_only
                spacy_format = Inl FileNotFoundError) \<and>
         read_full_med_mentions to_int resolve
             (fs(path_join d ''corpus_pubtator_pmids_all.txt'' := all_ids))
             directory_path label_mapping span_only spacy_format
           = read_full_med_mentions to_int resolve fs directory_path label_mapping span_only
               spacy_format"
proof (intro conjI impI)
  assume "fs (path_join d ''corpus_pubtator.txt'') = None
          \<or> fs (path_join d ''corpus_pubtator_pmids_trng.txt'') = None
          \<or> fs (path_join d ''corpus_pubtator_pmids_dev.txt'') = None
          \<or> fs (path_join d ''corpus_pubtator_pmids_test.txt'') = None"
  with assms show "read_full_med_mentions to_int resolve fs directory_path label_mapping span_only
                spacy_format = Inl FileNotFoundError"
    by (rule splitter_missing_file)
next
  show "read_full_med_mentions to_int resolve
             (fs(path_join d ''corpus_pubtator_pmids_all.txt'' := all_ids))
             directory_path label_mapping span_only spacy_format
           = read_full_med_mentions to_int resolve fs directory_path label_mapping span_only
               spacy_format"
  proof -
    let ?fs' = "fs(path_join d ''corpus_pubtator_pmids_all.txt'' := all_ids)"
    have same: "?fs' (path_join d ''corpus_pubtator.txt'') = fs (path_join d ''corpus_pubtator.txt'')"
      "?fs' (path_join d ''corpus_pubtator_pmids_trng.txt'')
         = fs (path_join d ''corpus_pubtator_pmids_trng.txt'')"
      "?fs' (path_join d ''corpus_pubtator_pmids_dev.txt'')
         = fs (path_join d ''corpus_pubtator_pmids_dev.txt'')"
      "?fs' (path_join d ''corpus_pubtator_pmids_test.txt'')
         = fs (path_join d ''corpus_pubtator_pmids_test.txt'')"
      by (simp_all add: path_join_def)
    show ?thesis
      by (simp add: read_full_med_mentions_def assms read_ids_def
          med_mentions_example_iterator_def expected_names_nth same
          del: fun_upd_apply cong: sum.case_cong)
  qed
qed

text \<open>Witness for C2: the small corpus without its list of dev IDs.\<close>

theorem read_full_med_mentions_missing_file_witness:
  "(demo_fs(''d/corpus_pubtator_pmids_dev.txt'' := None))
     (path_join ''d'' ''corpus_pubtator_pmids_dev.txt'') = None \<and>
   read_full_med_mentions py_int Inr (demo_fs(''d/corpus_pubtator_pmids_dev.txt'' := None)) ''d''
     None False True = Inl FileNotFoundError"
proof -
  have none: "(demo_fs(''d/corpus_pubtator_pmids_dev.txt'' := None))
     (path_join ''d'' ''corpus_pubtator_pmids_dev.txt'') = None"
    by (simp add: path_join_def)
  have resolved: "Inr ''d'' = (Inr ''d'' :: error + string)" by simp
  from read_full_med_mentions_missing_file
    [where to_int = py_int and resolve = Inr and directory_path = "''d''" and d = "''d''"
       and fs = "demo_fs(''d/corpus_pubtator_pmids_dev.txt'' := None)"
       and label_mapping = None and span_only = False and spacy_format = True,
     OF resolved, THEN conjunct1]
    none
  show ?thesis by blast
qed

text \<open>
  C2 (as the specification states it) fails: the directory of the small corpus has no
  \<open>corpus_pubtator_pmids_all.txt\<close>, and the call returns its three lists.
\<close>

theorem read_full_med_mentions_missing_file_counterexample:
  "demo_fs (path_join ''d'' ''corpus_pubtator_pmids_all.txt'') = None \<and>
   read_full_med_mentions py_int Inr demo_fs ''d'' None False True
     = Inr ([SpacyExample (''Cancer Cancer is bad.'', [(0, 6, ''T191'')]),
             SpacyExample (''Cold Cold is common.'', [])],
            [SpacyExample (''Flu Flu is mild.'', [])],
            [SpacyExample (''Gout Gout hurts.'', [])])"
  by code_simp

text \<open>
  C5. Let the directory be resolved and hold the three ID lists and the corpus file,
  let the Record Parser accept every block of the corpus file, \<open>docs\<close> being the
  documents it gives, in order, and let no label lookup fail: the collapse flag is set,
  or no mapping is supplied, or the mapping has the type of every entity of \<open>docs\<close>.
  Then the Corpus Splitter returns three lists, and they are what the splitter appends
  (the span example or the document, as the flag says) for the documents \<open>docs\<close>, in
  corpus order: in the first list for those whose ID is in the train set, in the second
  for those whose ID is not in the train set and is in the dev set, in the third for
  those whose ID is in neither and is in the test set. So each document whose ID is in
  some set is in one list, the first of train, dev, test that has its ID, and a
  document whose ID is in no set is in no list. And whenever the Corpus Splitter
  returns three lists, it has come to them in this way, the iterator having read the
  corpus to its end without error.
\<close>

theorem read_full_med_mentions_partition:
  "(resolve directory_path = Inr d \<and>
    fs (path_join d ''corpus_pubtator_pmids_trng.txt'') = Some trng_lines \<and>
    fs (path_join d ''corpus_pubtator_pmids_dev.txt'') = Some dev_lines \<and>
    fs (path_join d ''corpus_pubtator_pmids_test.txt'') = Some test_lines \<and>
    fs (path_join d ''corpus_pubtator.txt'') = Some corpus_lines \<and>
    list_all2 (parses to_int) (corpus_blocks corpus_lines) docs \<and>
    (span_only \<or>
     (\<forall>mapping. label_mapping = Some mapping \<longrightarrow>
        (\<forall>x\<in>set docs. \<forall>e\<in>set (entities x). mention_type e \<in> dom mapping)))
    \<longrightarrow> (\<exists>train dev test.
          read_full_med_mentions to_int resolve fs directory_path label_mapping span_only
            spacy_format = Inr (train, dev, test) \<and>
          partitioned label_mapping span_only spacy_format
            (set (map py_strip trng_lines)) (set (map py_strip dev_lines))
            (set (map py_strip test_lines)) docs train dev test)) \<and>
   (\<forall>train dev test.
      read_full_med_mentions to_int resolve fs directory_path label_mapping span_only
        spacy_format = Inr (train, dev, test) \<longrightarrow>
      (\<exists>d trng_lines dev_lines test_lines corpus_lines docs.
         resolve directory_path = Inr d \<and>
         fs (path_join d ''corpus_pubtator_pmids_trng.txt'') = Some trng_lines \<and>
         fs (path_join d ''corpus_pubtator_pmids_dev.txt'') = Some dev_lines \<and>
         fs (path_join d ''corpus_pubtator_pmids_test.txt'') = Some test_lines \<and>
         fs (path_join d ''corpus_pubtator.txt'') = Some corpus_lines \<and>
         list_all2 (parses to_int) (corpus_blocks corpus_lines) docs \<and>
         med_mentions_example_iterator to_int fs (path_join d ''corpus_pubtator.txt'')
           = (docs, None) \<and>
         partitioned label_mapping span_only spacy_format
           (set (map py_strip trng_lines)) (set (map py_strip dev_lines))
           (set (map py_strip test_lines)) docs train dev test))"
proof (intro conjI allI impI)
  assume given: "resolve directory_path = Inr d \<and>
    fs (path_join d ''corpus_pubtator_pmids_trng.txt'') = Some trng_lines \<and>
    fs (path_join d ''corpus_pubtator_pmids_dev.txt'') = Some dev_lines \<and>
    fs (path_join d ''corpus_pubtator_pmids_test.txt'') = Some test_lines \<and>
    fs (path_join d ''corpus_pubtator.txt'') = Some corpus_lines \<and>
    list_all2 (parses to_int) (corpus_blocks corpus_lines) docs \<and>
    (span_only \<or>
     (\<forall>mapping. label_mapping = Some mapping \<longrightarrow>
        (\<forall>x\<in>set docs. \<forall>e\<in>set (entities x). mention_type e \<in> dom mapping)))"
  let ?train_ids = "set (map py_strip trng_lines)"
  let ?dev_ids = "set (map py_strip dev_lines)"
  let ?test_ids = "set (map py_strip test_lines)"
  let ?empty = "\<lparr>train_examples = [], dev_examples = [], test_examples = []\<rparr>"
  from given have it:
    "med_mentions_example_iterator to_int fs (path_join d ''corpus_pubtator.txt'') = (docs, None)"
    unfolding iterator_reads_all by blast
  from given have "span_only \<or>
     (\<forall>mapping. label_mapping = Some mapping \<longrightarrow>
        (\<forall>x\<in>set docs. \<forall>e\<in>set (entities x). mention_type e \<in> dom mapping))"
    by blast
  then have "\<forall>x\<in>set docs. \<forall>e\<in>set (entities x).
       label_function label_mapping span_only (mention_type e) \<noteq> Inl KeyError"
    by (auto simp: label_function_def split: option.splits)
  then obtain acc where route:
    "route_examples label_mapping span_only spacy_format ?train_ids ?dev_ids ?test_ids
       ?empty docs = Inr acc"
    using route_examples_accepts
      [of label_mapping span_only spacy_format ?train_ids ?dev_ids ?test_ids ?empty docs]
    by blast
  from route_examples_Inr[OF route]
  have parts: "partitioned label_mapping span_only spacy_format ?train_ids ?dev_ids ?test_ids
      docs (train_examples acc) (dev_examples acc) (test_examples acc)"
    by (auto simp: partitioned_def)
  from given route it
  have "read_full_med_mentions to_int resolve fs directory_path label_mapping span_only
          spacy_format = Inr (train_examples acc, dev_examples acc, test_examples acc)"
    by (simp add: read_full_med_mentions_def expected_names_nth Let_def read_ids_Some)
  with parts show "\<exists>train dev test.
          read_full_med_mentions to_int resolve fs directory_path label_mapping span_only
            spacy_format = Inr (train, dev, test) \<and>
          partitioned label_mapping span_only spacy_format
            ?train_ids ?dev_ids ?test_ids docs train dev test"
    by blast
next
  fix train dev test
  assume returned: "read_full_med_mentions to_int resolve fs directory_path label_mapping
      span_only spacy_format = Inr (train, dev, test)"
  then obtain d train_ids dev_ids test_ids acc where
    d: "resolve directory_path = Inr d"
    and ids: "read_ids fs (path_join d ''corpus_pubtator_pmids_trng.txt'') = Inr train_ids"
      "read_ids fs (path_join d ''corpus_pubtator_pmids_dev.txt'') = Inr dev_ids"
      "read_ids fs (path_join d ''corpus_pubtator_pmids_test.txt'') = Inr test_ids"
    and route: "route_examples label_mapping span_only spacy_format train_ids dev_ids test_ids
        \<lparr>train_examples = [], dev_examples = [], test_examples = []\<rparr>
        (fst (med_mentions_example_iterator to_int fs (path_join d ''corpus_pubtator.txt''))) = Inr acc"
    and err: "snd (med_mentions_example_iterator to_int fs (path_join d ''corpus_pubtator.txt'')) = None"
    and out: "train = train_examples acc" "dev = dev_examples acc" "test = test_examples acc"
    by (auto simp: read_full_med_mentions_def expected_names_nth Let_def
        split: sum.splits option.splits)
  from ids obtain trng_lines dev_lines test_lines where
    files: "fs (path_join d ''corpus_pubtator_pmids_trng.txt'') = Some trng_lines"
      "fs (path_join d ''corpus_pubtator_pmids_dev.txt'') = Some dev_lines"
      "fs (path_join d ''corpus_pubtator_pmids_test.txt'') = Some test_lines"
    and sets: "train_ids = set (map py_strip trng_lines)"
      "dev_ids = set (map py_strip dev_lines)" "test_ids = set (map py_strip test_lines)"
    by (auto simp: read_ids_def split: option.splits)
  define docs' where
    "docs' = fst (med_mentions_example_iterator to_int fs (path_join d ''corpus_pubtator.txt''))"
  from err have it:
    "med_mentions_example_iterator to_int fs (path_join d ''corpus_pubtator.txt'') = (docs', None)"
    by (simp add: docs'_def prod_eq_iff)
  then obtain corpus_lines where corpus:
    "fs (path_join d ''corpus_pubtator.txt'') = Some corpus_lines"
    "list_all2 (parses to_int) (corpus_blocks corpus_lines) docs'"
    unfolding iterator_reads_all by blast
  from route_examples_Inr[OF route] out
  have "partitioned label_mapping span_only spacy_format train_ids dev_ids test_ids
           docs' train dev test"
    by (auto simp: docs'_def partitioned_def)
  with d files sets it corpus show "\<exists>d trng_lines dev_lines test_lines corpus_lines docs.
         resolve directory_path = Inr d \<and>
         fs (path_join d ''corpus_pubtator_pmids_trng.txt'') = Some trng_lines \<and>
         fs (path_join d ''corpus_pubtator_pmids_dev.txt'') = Some dev_lines \<and>
         fs (path_join d ''corpus_pubtator_pmids_test.txt'') = Some test_lines \<and>
         fs (path_join d ''corpus_pubtator.txt'') = Some corpus_lines \<and>
         list_all2 (parses to_int) (corpus_blocks corpus_lines) docs \<and>
         med_mentions_example_iterator to_int fs (path_join d ''corpus_pubtator.txt'')
           = (docs, None) \<and>
         partitioned label_mapping span_only spacy_format
           (set (map py_strip trng_lines)) (set (map py_strip dev_lines))
           (set (map py_strip test_lines)) docs train dev test"
    by blast
qed

text \<open>
  Witness for C5: the small corpus, as documents. ID 3 is in the train and the dev
  list and its document goes to train; ID 5 is in no list and its document is dropped.
\<close>

theorem read_full_med_mentions_partition_witness:
  "demo_fs (path_join ''d'' ''corpus_pubtator.txt'') = Some demo_corpus \<and>
   list_all2 (parses py_int) (corpus_blocks demo_corpus) demo_docs \<and>
   read_full_med_mentions py_int Inr demo_fs ''d'' None False False
     = Inr ([Document \<lparr>title = ''Cancer'', abstract = ''Cancer is bad.'',
                text' = ''Cancer Cancer is bad.'', pubmed_id = ''1'',
                entities = [\<lparr>start = 0, end' = 6, mention_text = ''Cancer'',
                             mention_type = ''T191'', umls_id = ''C0006826''\<rparr>]\<rparr>,
             Document \<lparr>title = ''Cold'', abstract = ''Cold is common.'',
                text' = ''Cold Cold is common.'', pubmed_id = ''3'', entities = []\<rparr>],
            [Document \<lparr>title = ''Flu'', abstract = ''Flu is mild.'',
                text' = ''Flu Flu is mild.'', pubmed_id = ''2'', entities = []\<rparr>],
            [Document \<lparr>title = ''Gout'', abstract = ''Gout hurts.'',
                text' = ''Gout Gout hurts.'', pubmed_id = ''4'', entities = []\<rparr>]) \<and>
   partitioned None False False
     (set (map py_strip [''1'', ''3''])) (set (map py_strip [''2'', ''3'']))
     (set (map py_strip [''4''])) demo_docs
     [Document \<lparr>title = ''Cancer'', abstract = ''Cancer is bad.'',
                text' = ''Cancer Cancer is bad.'', pubmed_id = ''1'',
                entities = [\<lparr>start = 0, end' = 6, mention_text = ''Cancer'',
                             mention_type = ''T191'', umls_id = ''C0006826''\<rparr>]\<rparr>,
             Document \<lparr>title = ''Cold'', abstract = ''Cold is common.'',
                text' = ''Cold Cold is common.'', pubmed_id = ''3'', entities = []\<rparr>]
     [Document \<lparr>title = ''Flu'', abstract = ''Flu is mild.'',
                text' = ''Flu Flu is mild.'', pubmed_id = ''2'', entities = []\<rparr>]
     [Document \<lparr>title = ''Gout'', abstract = ''Gout hurts.'',
                text' = ''Gout Gout hurts.'', pubmed_id = ''4'', entities = []\<rparr>]"
proof -
  have resolved: "Inr ''d'' = (Inr ''d'' :: error + string)" by simp
  have trng: "demo_fs (path_join ''d'' ''corpus_pubtator_pmids_trng.txt'') = Some [''1'', ''3'']"
    and dev: "demo_fs (path_join ''d'' ''corpus_pubtator_pmids_dev.txt'') = Some [''2'', ''3'']"
    and test: "demo_fs (path_join ''d'' ''corpus_pubtator_pmids_test.txt'') = Some [''4'']"
    and corpus: "demo_fs (path_join ''d'' ''corpus_pubtator.txt'') = Some demo_corpus"
    by (simp_all add: demo_fs_def path_join_def)
  have parsed: "list_all2 (parses py_int) (corpus_blocks demo_corpus) demo_docs"
    by code_simp
  have labels: "False \<or>
     (\<forall>mapping. (None :: (string \<rightharpoonup> string) option) = Some mapping \<longrightarrow>
        (\<forall>x\<in>set demo_docs. \<forall>e\<in>set (entities x). mention_type e \<in> dom mapping))"
    by simp
  have run: "read_full_med_mentions py_int Inr demo_fs ''d'' None False False
     = Inr ([Document \<lparr>title = ''Cancer'', abstract = ''Cancer is bad.'',
                text' = ''Cancer Cancer is bad.'', pubmed_id = ''1'',
                entities = [\<lparr>start = 0, end' = 6, mention_text = ''Cancer'',
                             mention_type = ''T191'', umls_id = ''C0006826''\<rparr>]\<rparr>,
             Document \<lparr>title = ''Cold'', abstract = ''Cold is common.'',
                text' = ''Cold Cold is common.'', pubmed_id = ''3'', entities = []\<rparr>],
            [Document \<lparr>title = ''Flu'', abstract = ''Flu is mild.'',
                text' = ''Flu Flu is mild.'', pubmed_id = ''2'', entities = []\<rparr>],
            [Document \<lparr>title = ''Gout'', abstract = ''Gout hurts.'',
                text' = ''Gout Gout hurts.'', pubmed_id = ''4'', entities = []\<rparr>])"
    by code_simp
  from read_full_med_mentions_partition
         [where to_int = py_int and resolve = Inr and directory_path = "''d''" and d = "''d''"
            and fs = demo_fs and trng_lines = "[''1'', ''3'']" and dev_lines = "[''2'', ''3'']"
            and test_lines = "[''4'']" and corpus_lines = demo_corpus and docs = demo_docs
            and label_mapping = None and span_only = False and spacy_format = False,
          THEN conjunct1]
       resolved trng dev test corpus parsed labels
  obtain train dev test where
    "read_full_med_mentions py_int Inr demo_fs ''d'' None False False = Inr (train, dev, test)"
    "partitioned None False False
       (set (map py_strip [''1'', ''3''])) (set (map py_strip [''2'', ''3'']))
       (set (map py_strip [''4''])) demo_docs train dev test"
    by blast
  with run corpus parsed show ?thesis by simp
qed

text \<open>
  C7. Let a label mapping be supplied and the collapse flag be unset. If the call has
  read its three ID lists and the iterator yields a document with an entity whose type
  has no entry in the mapping, the call fails with \<open>KeyError\<close>: it returns no list,
  and so no example for that document.
\<close>

theorem read_full_med_mentions_key_error:
  assumes "resolve directory_path = Inr d"
    and "fs (path_join d ''corpus_pubtator_pmids_trng.txt'') = Some trng_lines"
    and "fs (path_join d ''corpus_pubtator_pmids_dev.txt'') = Some dev_lines"
    and "fs (path_join d ''corpus_pubtator_pmids_test.txt'') = Some test_lines"
    and "example \<in> set (fst (med_mentions_example_iterator to_int fs (path_join d ''corpus_pubtator.txt'')))"
    and "e \<in> set (entities example)"
    and "mapping (mention_type e) = None"
  shows "read_full_med_mentions to_int resolve fs directory_path (Some mapping) False spacy_format
           = Inl KeyError"
  using assms by (rule splitter_unmapped_type)

text \<open>
  Witness for C7: the small corpus with a mapping for T191 only; the last document has
  an entity of type T047.
\<close>

theorem read_full_med_mentions_key_error_witness:
  "\<lparr>title = ''Acne'', abstract = ''Acne fades.'', text' = ''Acne Acne fades.'',
     pubmed_id = ''5'',
     entities = [\<lparr>start = 0, end' = 4, mention_text = ''Acne'',
                  mention_type = ''T047'', umls_id = ''C0702166''\<rparr>]\<rparr>
     \<in> set (fst (med_mentions_example_iterator py_int demo_fs (path_join ''d'' ''corpus_pubtator.txt''))) \<and>
   [''T191'' \<mapsto> ''DISEASE''] ''T047'' = None \<and>
   read_full_med_mentions py_int Inr demo_fs ''d'' (Some [''T191'' \<mapsto> ''DISEASE'']) False True
     = Inl KeyError"
proof -
  let ?e = "\<lparr>start = 0, end' = 4, mention_text = ''Acne'',
                  mention_type = ''T047'', umls_id = ''C0702166''\<rparr>"
  let ?x = "\<lparr>title = ''Acne'', abstract = ''Acne fades.'', text' = ''Acne Acne fades.'',
     pubmed_id = ''5'', entities = [?e]\<rparr>"
  have trng: "demo_fs (path_join ''d'' ''corpus_pubtator_pmids_trng.txt'') = Some [''1'', ''3'']"
    and dev: "demo_fs (path_join ''d'' ''corpus_pubtator_pmids_dev.txt'') = Some [''2'', ''3'']"
    and test: "demo_fs (path_join ''d'' ''corpus_pubtator_pmids_test.txt'') = Some [''4'']"
    by (simp_all add: demo_fs_def path_join_def)
  have yielded:
    "?x \<in> set (fst (med_mentions_example_iterator py_int demo_fs (path_join ''d'' ''corpus_pubtator.txt'')))"
    by code_simp
  have ent: "?e \<in> set (entities ?x)" by simp
  have unmapped: "[''T191'' \<mapsto> ''DISEASE''] (mention_type ?e) = None" by simp
  have resolved: "Inr ''d'' = (Inr ''d'' :: error + string)" by simp
  from read_full_med_mentions_key_error
         [where to_int = py_int and resolve = Inr and directory_path = "''d''" and d = "''d''"
            and fs = demo_fs and example = ?x and e = ?e
            and mapping = "[''T191'' \<mapsto> ''DISEASE'']" and spacy_format = True,
          OF resolved trng dev test yielded ent unmapped]
       yielded unmapped
  show ?thesis by simp
qed

text \<open>
  C10. Let a label mapping be supplied and the collapse flag be unset, and let a
  document have an entity whose type has no entry in the mapping. The pass of the
  loop for that document fails with \<open>KeyError\<close> whatever the output-format flag and
  the three ID sets are: the labels are computed before the ID is looked up. So a call
  that asks for documents, not span examples, and whose iterator yields the document,
  fails with \<open>KeyError\<close> although the ID of the document is in none of the three
  ID lists.
\<close>

theorem label_before_membership:
  assumes "e \<in> set (entities example)"
    and "mapping (mention_type e) = None"
  shows "route_examples (Some mapping) False spacy_format train_ids dev_ids test_ids acc
           (example # rest) = Inl KeyError \<and>
         (resolve directory_path = Inr d \<and>
          fs (path_join d ''corpus_pubtator_pmids_trng.txt'') = Some trng_lines \<and>
          fs (path_join d ''corpus_pubtator_pmids_dev.txt'') = Some dev_lines \<and>
          fs (path_join d ''corpus_pubtator_pmids_test.txt'') = Some test_lines \<and>
          example \<in> set (fst (med_mentions_example_iterator to_int fs
                                 (path_join d ''corpus_pubtator.txt''))) \<and>
          pubmed_id example \<notin> set (map py_strip trng_lines) \<and>
          pubmed_id example \<notin> set (map py_strip dev_lines) \<and>
          pubmed_id example \<notin> set (map py_strip test_lines)
          \<longrightarrow> read_full_med_mentions to_int resolve fs directory_path (Some mapping) False False
                = Inl KeyError)"
proof (intro conjI impI)
  show "route_examples (Some mapping) False spacy_format train_ids dev_ids test_ids acc
           (example # rest) = Inl KeyError"
    using assms by (rule route_examples_step_unmapped)
next
  assume "resolve directory_path = Inr d \<and>
          fs (path_join d ''corpus_pubtator_pmids_trng.txt'') = Some trng_lines \<and>
          fs (path_join d ''corpus_pubtator_pmids_dev.txt'') = Some dev_lines \<and>
          fs (path_join d ''corpus_pubtator_pmids_test.txt'') = Some test_lines \<and>
          example \<in> set (fst (med_mentions_example_iterator to_int fs
                                 (path_join d ''corpus_pubtator.txt''))) \<and>
          pubmed_id example \<notin> set (map py_strip trng_lines) \<and>
          pubmed_id example \<notin> set (map py_strip dev_lines) \<and>
          pubmed_id example \<notin> set (map py_strip test_lines)"
  then show "read_full_med_mentions to_int resolve fs directory_path (Some mapping) False False
                = Inl KeyError"
    using splitter_unmapped_type
            [where resolve = resolve and directory_path = directory_path and d = d and fs = fs
               and trng_lines = trng_lines and dev_lines = dev_lines
               and test_lines = test_lines and example = example and e = e
               and mapping = mapping and spacy_format = False and to_int = to_int]
          assms
    by blast
qed

text \<open>
  Witness for C10: the small corpus with an empty mapping, documents asked for; the
  document of ID 5, which is in no ID list, has an entity.
\<close>

theorem label_before_membership_witness:
  "\<lparr>title = ''Acne'', abstract = ''Acne fades.'', text' = ''Acne Acne fades.'',
     pubmed_id = ''5'',
     entities = [\<lparr>start = 0, end' = 4, mention_text = ''Acne'',
                  mention_type = ''T047'', umls_id = ''C0702166''\<rparr>]\<rparr>
     \<in> set (fst (med_mentions_example_iterator py_int demo_fs (path_join ''d'' ''corpus_pubtator.txt''))) \<and>
   ''5'' \<notin> set (map py_strip [''1'', ''3'']) \<and>
   ''5'' \<notin> set (map py_strip [''2'', ''3'']) \<and>
   ''5'' \<notin> set (map py_strip [''4'']) \<and>
   read_full_med_mentions py_int Inr demo_fs ''d'' (Some Map.empty) False False = Inl KeyError"
proof -
  let ?e = "\<lparr>start = 0, end' = 4, mention_text = ''Acne'',
                  mention_type = ''T047'', umls_id = ''C0702166''\<rparr>"
  let ?x = "\<lparr>title = ''Acne'', abstract = ''Acne fades.'', text' = ''Acne Acne fades.'',
     pubmed_id = ''5'', entities = [?e]\<rparr>"
  have trng: "demo_fs (path_join ''d'' ''corpus_pubtator_pmids_trng.txt'') = Some [''1'', ''3'']"
    and dev: "demo_fs (path_join ''d'' ''corpus_pubtator_pmids_dev.txt'') = Some [''2'', ''3'']"
    and test: "demo_fs (path_join ''d'' ''corpus_pubtator_pmids_test.txt'') = Some [''4'']"
    by (simp_all add: demo_fs_def path_join_def)
  have yielded:
    "?x \<in> set (fst (med_mentions_example_iterator py_int demo_fs (path_join ''d'' ''corpus_pubtator.txt'')))"
    by code_simp
  have outside: "pubmed_id ?x \<notin> set (map py_strip [''1'', ''3''])"
    "pubmed_id ?x \<notin> set (map py_strip [''2'', ''3''])"
    "pubmed_id ?x \<notin> set (map py_strip [''4''])"
    by (simp_all add: py_strip_def is_space_def)
  have ent: "?e \<in> set (entities ?x)" by simp
  have unmapped: "Map.empty (mention_type ?e) = None" by simp
  from label_before_membership
         [where to_int = py_int and e = ?e and example = ?x and mapping = Map.empty
            and resolve = Inr and directory_path = "''d''" and d = "''d''" and fs = demo_fs
            and trng_lines = "[''1'', ''3'']" and dev_lines = "[''2'', ''3'']"
            and test_lines = "[''4'']",
          OF ent unmapped]
       trng dev test yielded outside
  show ?thesis by simp
qed

end
